theory Spec2Isabelle
  imports Complex_Main
begin

section \<open>The page: timers, promises, random source, output element\<close>

text \<open>
  The terminal widget of the portfolio site is two JavaScript classes,
  \<^verbatim>\<open>TypingEngine\<close> (typing-engine.js) and \<^verbatim>\<open>TerminalController\<close>
  (terminal-controller.js), running on one event loop. Their closures passed to
  \<^verbatim>\<open>setTimeout\<close> are defunctionalised: a pending timer holds a \<open>callback\<close> value that
  names the closure and carries the variables it captured.

  Strings are lists of characters (one \<open>char\<close> per code unit); JavaScript numbers used
  as delays and probabilities are rationals (the delays are only ever stored, never
  compared); the index of the current snippet is a \<open>jsnum\<close>, an integer or NaN.
\<close>

datatype js_error = Error string

datatype jsnum = Num int | NaN

datatype pstatus = Pending | Fulfilled | Rejected js_error

datatype cue = Keypress | Backspace | Enter | Complete | Startup

datatype log_entry = Warn string | ErrorLog string

datatype terminal_state = StTyping | StPaused | StCompleted | StError | StIdle

datatype callback =
    TypeNext string nat
  | ErrBackspace string nat rat
  | ErrRetype string nat rat
  | HoldElapsed
  | CooldownElapsed
  | AutoStart

datatype complete_cb = Resolve nat | ControllerComplete

datatype error_cb = Reject nat | ControllerError

datatype progress_cb = ControllerProgress

record snippet =
  snippet_id :: string
  title :: string
  language :: string
  code :: string

record engine_options =
  baseSpeed :: rat
  speedVariation :: rat
  pauseChance :: rat
  pauseDuration :: rat
  errorChance :: rat
  errorCorrectDelay :: rat

record controller_options =
  autoStart :: bool
  autoRotate :: bool
  rotateInterval :: rat
  typingSpeed :: rat
  waitAfterComplete :: rat

text \<open>
  One record holds everything the two classes read and write: the environment (timer
  table, promise table, microtask queue, the outcomes of \<^verbatim>\<open>Math.random()\<close>, the sound
  manager, the console), the \<^verbatim>\<open>#codeOutput\<close> element and the container's state class,
  the fields of the engine, and the fields of the controller (prefixed \<open>ctl_\<close> where
  the engine has a field of the same name).

  \<open>soundManager\<close> is \<open>None\<close> when \<^verbatim>\<open>window.soundManager\<close> is undefined, otherwise
  \<open>Some enabled\<close>. \<open>cues\<close> logs the calls made to the sound manager's \<^verbatim>\<open>play*\<close>
  methods. \<open>promises\<close> gives each promise, by its index, its status and whether a
  suspended \<^verbatim>\<open>typeCurrentSnippet\<close> awaits it.
\<close>

record world =
  timers :: "(nat \<times> rat \<times> callback) list"
  timer_count :: nat
  promises :: "(pstatus \<times> bool) list"
  microtasks :: "pstatus list"
  rnd :: "nat \<Rightarrow> rat"
  rng :: nat
  soundManager :: "bool option"
  cues :: "cue list"
  console :: "log_entry list"
  textContent :: string
  className :: string
  container_state :: "terminal_state option"
  options :: engine_options
  isTyping :: bool
  isPaused :: bool
  currentTimeout :: "nat option"
  onComplete :: "complete_cb option"
  onProgress :: "progress_cb option"
  onError :: "error_cb option"
  targetText :: "string option"
  ctl_options :: controller_options
  currentSnippetIndex :: jsnum
  ctl_isTyping :: bool
  ctl_isPaused :: bool
  isUserInteracting :: bool
  autoRotateTimer :: "nat option"
  typingCompleteTimer :: "nat option"
  snippets :: "snippet list"

subsection \<open>Timers\<close>

text \<open>
  \<^verbatim>\<open>setTimeout\<close> returns a fresh positive handle (so a stored handle is always truthy in
  the tests \<^verbatim>\<open>if (this.currentTimeout)\<close>) and adds the callback to the table;
  \<^verbatim>\<open>clearTimeout\<close> and \<^verbatim>\<open>clearInterval\<close> remove the handle, and are harmless on a handle
  that is not pending.
\<close>

definition setTimeout :: "callback \<Rightarrow> rat \<Rightarrow> world \<Rightarrow> nat \<times> world" where
  "setTimeout cb delay w =
     (let t = Suc (timer_count w)
      in (t, w\<lparr>timers := timers w @ [(t, delay, cb)], timer_count := t\<rparr>))"

definition clearTimeout :: "nat \<Rightarrow> world \<Rightarrow> world" where
  "clearTimeout t w = w\<lparr>timers := filter (\<lambda>e. fst e \<noteq> t) (timers w)\<rparr>"

definition clearInterval :: "nat \<Rightarrow> world \<Rightarrow> world" where
  "clearInterval t w = clearTimeout t w"

subsection \<open>Random numbers\<close>

definition Math_random :: "world \<Rightarrow> rat \<times> world" where
  "Math_random w = (rnd w (rng w), w\<lparr>rng := Suc (rng w)\<rparr>)"

subsection \<open>Promises and microtasks\<close>

definition new_promise :: "world \<Rightarrow> nat \<times> world" where
  "new_promise w = (length (promises w), w\<lparr>promises := promises w @ [(Pending, False)]\<rparr>)"

text \<open>
  Settling a promise that is already settled does nothing. If a suspended
  \<^verbatim>\<open>typeCurrentSnippet\<close> awaits the promise, its continuation is queued as a microtask.
\<close>

definition settle :: "nat \<Rightarrow> pstatus \<Rightarrow> world \<Rightarrow> world" where
  "settle p outcome w =
     (if p < length (promises w) \<and> fst (promises w ! p) = Pending
      then let awaited = snd (promises w ! p);
               w = w\<lparr>promises := (promises w)[p := (outcome, awaited)]\<rparr>
           in if awaited then w\<lparr>microtasks := microtasks w @ [outcome]\<rparr> else w
      else w)"

definition await :: "nat \<Rightarrow> world \<Rightarrow> world" where
  "await p w =
     (if p < length (promises w)
      then (case fst (promises w ! p) of
              Pending \<Rightarrow> w\<lparr>promises := (promises w)[p := (Pending, True)]\<rparr>
            | outcome \<Rightarrow> w\<lparr>microtasks := microtasks w @ [outcome]\<rparr>)
      else w)"

section \<open>TypingEngine\<close>

definition newline :: char where
  "newline = CHR 0x0A"

definition wrongChars :: string where
  "wrongChars = ''qwertyuiopasdfghjklzxcvbnm''"

definition isUpper :: "char \<Rightarrow> bool" where
  "isUpper c = (let n = (of_char c :: nat) in 65 \<le> n \<and> n \<le> 90)"

text \<open>
  \<^verbatim>\<open>_highlightSyntax\<close> asks Prism to re-render the element and swallows any error;
  the element's text is the same before and after.
\<close>

definition highlightSyntax :: "world \<Rightarrow> world" where
  "highlightSyntax w = w"

definition playKeypressSound :: "world \<Rightarrow> world" where
  "playKeypressSound w =
     (if soundManager w = Some True then w\<lparr>cues := cues w @ [Keypress]\<rparr> else w)"

definition playBackspaceSound :: "world \<Rightarrow> world" where
  "playBackspaceSound w =
     (if soundManager w = Some True then w\<lparr>cues := cues w @ [Backspace]\<rparr> else w)"

definition playEnterSound :: "world \<Rightarrow> world" where
  "playEnterSound w =
     (if soundManager w = Some True then w\<lparr>cues := cues w @ [Enter]\<rparr> else w)"

subsection \<open>The controller's completion handler\<close>

text \<open>
  The controller registers \<^verbatim>\<open>() => this.onTypingComplete()\<close> with the engine, so the
  handler and what it calls come before \<open>completeTyping\<close>. \<^verbatim>\<open>updateUI\<close> rewrites the
  title, the status line and the mute button only; none of them is read by any
  operation, and they are not part of the state.
\<close>

definition setState :: "terminal_state \<Rightarrow> world \<Rightarrow> world" where
  "setState st w = w\<lparr>container_state := Some st\<rparr>"

definition updateUI :: "world \<Rightarrow> world" where
  "updateUI w = w"

definition updateProgress :: "nat \<Rightarrow> nat \<Rightarrow> world \<Rightarrow> world" where
  "updateProgress current total' w = w"

definition clearRotationTimers :: "world \<Rightarrow> world" where
  "clearRotationTimers w =
     (let w = (case autoRotateTimer w of
                 Some t \<Rightarrow> (clearInterval t w)\<lparr>autoRotateTimer := None\<rparr>
               | None \<Rightarrow> w)
      in (case typingCompleteTimer w of
            Some t \<Rightarrow> (clearTimeout t w)\<lparr>typingCompleteTimer := None\<rparr>
          | None \<Rightarrow> w))"

definition scheduleNextRotation :: "world \<Rightarrow> world" where
  "scheduleNextRotation w =
     (let w = clearRotationTimers w
      in if autoRotate (ctl_options w) \<and> \<not> isUserInteracting w \<and> \<not> ctl_isPaused w
         then let (t, w) = setTimeout HoldElapsed (waitAfterComplete (ctl_options w)) w
              in w\<lparr>typingCompleteTimer := Some t\<rparr>
         else w)"

definition ctl_onTypingComplete :: "world \<Rightarrow> world" where
  "ctl_onTypingComplete w = scheduleNextRotation (updateUI (setState StCompleted w))"

subsection \<open>Emission\<close>

definition call_complete :: "complete_cb \<Rightarrow> world \<Rightarrow> world" where
  "call_complete cb w =
     (case cb of Resolve p \<Rightarrow> settle p Fulfilled w
               | ControllerComplete \<Rightarrow> ctl_onTypingComplete w)"

definition call_progress :: "progress_cb \<Rightarrow> nat \<Rightarrow> nat \<Rightarrow> world \<Rightarrow> world" where
  "call_progress cb current total' w =
     (case cb of ControllerProgress \<Rightarrow> updateProgress current total' w)"

definition completeTyping :: "world \<Rightarrow> world" where
  "completeTyping w =
     (let w = w\<lparr>isTyping := False\<rparr>;
          w = highlightSyntax w;
          w = (if soundManager w = Some True then w\<lparr>cues := cues w @ [Complete]\<rparr> else w)
      in (case onComplete w of Some cb \<Rightarrow> call_complete cb w | None \<Rightarrow> w))"

text \<open>
  \<^verbatim>\<open>wrongChars[Math.floor(Math.random() * wrongChars.length)]\<close>: an index outside the
  string reads \<^verbatim>\<open>undefined\<close>, which \<^verbatim>\<open>+=\<close> appends as the text "undefined".
\<close>

definition simulateError :: "string \<Rightarrow> nat \<Rightarrow> rat \<Rightarrow> world \<Rightarrow> world" where
  "simulateError text index baseSpeed' w =
     (let (r, w) = Math_random w;
          i = \<lfloor>r * rat_of_nat (length wrongChars)\<rfloor>;
          wrongChar = (if 0 \<le> i \<and> i < int (length wrongChars)
                       then [wrongChars ! nat i] else ''undefined'');
          w = w\<lparr>textContent := textContent w @ wrongChar\<rparr>;
          w = playKeypressSound w;
          w = highlightSyntax w;
          (t, w) = setTimeout (ErrBackspace text index baseSpeed') (errorCorrectDelay (options w)) w
      in w\<lparr>currentTimeout := Some t\<rparr>)"

definition typeCharacters :: "string \<Rightarrow> nat \<Rightarrow> world \<Rightarrow> world" where
  "typeCharacters text index w =
     (if \<not> isTyping w \<or> isPaused w then w
      else if index \<ge> length text then completeTyping w
      else
        let char = text ! index;
            (r1, w) = Math_random w;
            variation = (r1 - 1/2) * speedVariation (options w);
            speed = baseSpeed (options w) + variation;
            (speed, w) =
              (if char = newline then (speed * 2, playEnterSound w)
               else if char = CHR '' '' then (speed * (3/2), w)
               else if char \<in> set ''.!?;'' then (speed * 2, w)
               else if isUpper char then (speed * (6/5), w)
               else (speed, playKeypressSound w));
            (r2, w) = Math_random w;
            speed = (if r2 < pauseChance (options w)
                     then speed + pauseDuration (options w) else speed);
            (r3, w) = Math_random w
        in if r3 < errorChance (options w) \<and> char \<noteq> newline
           then simulateError text index speed w
           else
             let w = w\<lparr>textContent := textContent w @ [char]\<rparr>;
                 w = highlightSyntax w;
                 w = (case onProgress w of
                        Some cb \<Rightarrow> call_progress cb (index + 1) (length text) w
                      | None \<Rightarrow> w);
                 (t, w) = setTimeout (TypeNext text (index + 1)) speed w
             in w\<lparr>currentTimeout := Some t\<rparr>)"

text \<open>
  \<^verbatim>\<open>typeText\<close> returns its promise (by index). The executor runs at once: a call
  while typing rejects the new promise and returns.
\<close>

definition typeText :: "string \<Rightarrow> string \<Rightarrow> world \<Rightarrow> nat \<times> world" where
  "typeText text lang w =
     (let (p, w) = new_promise w
      in if isTyping w then (p, settle p (Rejected (Error ''Already typing'')) w)
         else
           let w = w\<lparr>isTyping := True, isPaused := False,
                      onComplete := Some (Resolve p), onError := Some (Reject p)\<rparr>;
               w = w\<lparr>textContent := [], className := ''language-'' @ lang\<rparr>
           in (p, typeCharacters text 0 w))"

definition pause :: "world \<Rightarrow> world" where
  "pause w =
     (if isTyping w
      then let w = w\<lparr>isPaused := True\<rparr>
           in (case currentTimeout w of
                 Some t \<Rightarrow> (clearTimeout t w)\<lparr>currentTimeout := None\<rparr>
               | None \<Rightarrow> w)
      else w)"

text \<open>\<^verbatim>\<open>this.targetText || ''\<close>: undefined and the empty string both give the empty string.\<close>

definition resume :: "world \<Rightarrow> world" where
  "resume w =
     (if isTyping w \<and> isPaused w
      then let w = w\<lparr>isPaused := False\<rparr>;
               currentText = textContent w;
               fullText = (case targetText w of Some t \<Rightarrow> t | None \<Rightarrow> [])
           in if length currentText < length fullText
              then typeCharacters fullText (length currentText) w
              else w
      else w)"

definition stop :: "world \<Rightarrow> world" where
  "stop w =
     (let w = w\<lparr>isTyping := False, isPaused := False\<rparr>
      in (case currentTimeout w of
            Some t \<Rightarrow> (clearTimeout t w)\<lparr>currentTimeout := None\<rparr>
          | None \<Rightarrow> w))"

definition clear :: "world \<Rightarrow> world" where
  "clear w = (stop w)\<lparr>textContent := []\<rparr>"

definition setSpeed :: "rat \<Rightarrow> world \<Rightarrow> world" where
  "setSpeed b w = w\<lparr>options := (options w)\<lparr>baseSpeed := b\<rparr>\<rparr>"

definition onTypingProgress :: "progress_cb \<Rightarrow> world \<Rightarrow> world" where
  "onTypingProgress cb w = w\<lparr>onProgress := Some cb\<rparr>"

definition onTypingComplete :: "complete_cb \<Rightarrow> world \<Rightarrow> world" where
  "onTypingComplete cb w = w\<lparr>onComplete := Some cb\<rparr>"

definition onTypingError :: "error_cb \<Rightarrow> world \<Rightarrow> world" where
  "onTypingError cb w = w\<lparr>onError := Some cb\<rparr>"

definition typeWithCursor :: "string \<Rightarrow> string \<Rightarrow> world \<Rightarrow> nat \<times> world" where
  "typeWithCursor text lang w = typeText text lang (w\<lparr>targetText := Some text\<rparr>)"

section \<open>TerminalController\<close>

text \<open>
  \<^verbatim>\<open>this.snippets[i]\<close> is \<^verbatim>\<open>undefined\<close> unless \<open>i\<close> is an integer within the array.
\<close>

definition snippet_at :: "snippet list \<Rightarrow> jsnum \<Rightarrow> snippet option" where
  "snippet_at xs i =
     (case i of NaN \<Rightarrow> None
      | Num k \<Rightarrow> if 0 \<le> k \<and> k < int (length xs) then Some (xs ! nat k) else None)"

text \<open>
  \<^verbatim>\<open>a % b\<close> is NaN when \<open>b\<close> is zero or \<open>a\<close> is NaN; otherwise the remainder has the sign
  of the dividend.
\<close>

definition js_add :: "jsnum \<Rightarrow> int \<Rightarrow> jsnum" where
  "js_add a k = (case a of NaN \<Rightarrow> NaN | Num i \<Rightarrow> Num (i + k))"

definition js_mod :: "jsnum \<Rightarrow> int \<Rightarrow> jsnum" where
  "js_mod a b =
     (case a of NaN \<Rightarrow> NaN
      | Num i \<Rightarrow> if b = 0 then NaN else Num (sgn i * (\<bar>i\<bar> mod \<bar>b\<bar>)))"

text \<open>
  \<^verbatim>\<open>typeCurrentSnippet\<close> is an async function: it runs up to its \<^verbatim>\<open>await\<close> on the
  caller's turn; what follows the \<^verbatim>\<open>await\<close> (\<open>typeCurrentSnippet_after\<close>: the
  \<^verbatim>\<open>catch\<close> block on a rejection, then the \<^verbatim>\<open>finally\<close> block) runs as a microtask once
  the promise of \<^verbatim>\<open>typeText\<close> is settled.
\<close>

definition typeCurrentSnippet :: "world \<Rightarrow> world" where
  "typeCurrentSnippet w =
     (case snippet_at (snippets w) (currentSnippetIndex w) of
        None \<Rightarrow> w
      | Some snippet \<Rightarrow>
          let w = w\<lparr>ctl_isTyping := True\<rparr>;
              w = setState StTyping w;
              w = updateUI w;
              w = w\<lparr>textContent := []\<rparr>;
              (p, w) = typeText (code snippet) (language snippet) w
          in await p w)"

definition typeCurrentSnippet_after :: "pstatus \<Rightarrow> world \<Rightarrow> world" where
  "typeCurrentSnippet_after outcome w =
     (case outcome of
        Rejected e \<Rightarrow>
          (setState StError (w\<lparr>console := console w @ [ErrorLog ''Error typing snippet:'']\<rparr>))
            \<lparr>ctl_isTyping := False\<rparr>
      | _ \<Rightarrow> w\<lparr>ctl_isTyping := False\<rparr>)"

definition drain :: "world \<Rightarrow> world" where
  "drain w = fold typeCurrentSnippet_after (microtasks w) (w\<lparr>microtasks := []\<rparr>)"

text \<open>
  \<^verbatim>\<open>startDemo\<close> has no path that throws; its result is a sum so that a refusal by
  error could be told from a return.
\<close>

definition startDemo :: "world \<Rightarrow> js_error + world" where
  "startDemo w =
     (if length (snippets w) = 0
      then Inr (w\<lparr>console := console w @ [Warn ''No code snippets available'']\<rparr>)
      else
        let w = (if soundManager w \<noteq> None then w\<lparr>cues := cues w @ [Startup]\<rparr> else w)
        in Inr (typeCurrentSnippet w))"

definition nextSnippet :: "world \<Rightarrow> world" where
  "nextSnippet w =
     (let w = clearRotationTimers w;
          w = w\<lparr>currentSnippetIndex :=
                   js_mod (js_add (currentSnippetIndex w) 1) (int (length (snippets w)))\<rparr>
      in typeCurrentSnippet w)"

definition previousSnippet :: "world \<Rightarrow> world" where
  "previousSnippet w =
     (let w = clearRotationTimers w;
          w = w\<lparr>currentSnippetIndex :=
                   (if currentSnippetIndex w = Num 0
                    then Num (int (length (snippets w)) - 1)
                    else js_add (currentSnippetIndex w) (- 1))\<rparr>
      in typeCurrentSnippet w)"

definition restartCurrentSnippet :: "world \<Rightarrow> world" where
  "restartCurrentSnippet w = typeCurrentSnippet (clearRotationTimers w)"

definition handleUserInteraction :: "world \<Rightarrow> world" where
  "handleUserInteraction w =
     (let w = w\<lparr>isUserInteracting := True\<rparr>;
          w = clearRotationTimers w;
          w = nextSnippet w
      in snd (setTimeout CooldownElapsed 5000 w))"

definition pauseDemo :: "world \<Rightarrow> world" where
  "pauseDemo w =
     (let w = w\<lparr>ctl_isPaused := True\<rparr>;
          w = pause w;
          w = clearRotationTimers w;
          w = setState StPaused w
      in updateUI w)"

definition resumeDemo :: "world \<Rightarrow> world" where
  "resumeDemo w =
     (let w = w\<lparr>ctl_isPaused := False\<rparr>;
          w = resume w;
          w = setState StTyping w
      in updateUI w)"

definition togglePause :: "world \<Rightarrow> world" where
  "togglePause w = (if ctl_isPaused w then resumeDemo w else pauseDemo w)"

definition setSnippet :: "jsnum \<Rightarrow> world \<Rightarrow> world" where
  "setSnippet index w =
     (case index of
        NaN \<Rightarrow> w
      | Num i \<Rightarrow>
          if i \<ge> 0 \<and> i < int (length (snippets w))
          then typeCurrentSnippet ((clearRotationTimers w)\<lparr>currentSnippetIndex := Num i\<rparr>)
          else w)"

subsection \<open>Running a timer\<close>

definition run_callback :: "callback \<Rightarrow> world \<Rightarrow> world" where
  "run_callback cb w =
     (case cb of
        TypeNext text index \<Rightarrow> typeCharacters text index w
      | ErrBackspace text index baseSpeed' \<Rightarrow>
          let currentText = textContent w;
              w = w\<lparr>textContent := butlast currentText\<rparr>;
              w = playBackspaceSound w;
              w = highlightSyntax w;
              (t, w) = setTimeout (ErrRetype text index baseSpeed') 100 w
          in w\<lparr>currentTimeout := Some t\<rparr>
      | ErrRetype text index baseSpeed' \<Rightarrow>
          let w = w\<lparr>textContent := textContent w @ [text ! index]\<rparr>;
              w = playKeypressSound w;
              w = highlightSyntax w;
              (t, w) = setTimeout (TypeNext text (index + 1)) baseSpeed' w
          in w\<lparr>currentTimeout := Some t\<rparr>
      | HoldElapsed \<Rightarrow> nextSnippet w
      | CooldownElapsed \<Rightarrow> w\<lparr>isUserInteracting := False\<rparr>
      | AutoStart \<Rightarrow> (case startDemo w of Inr w' \<Rightarrow> w' | Inl e \<Rightarrow> w))"

text \<open>
  \<open>fire t\<close> is the event loop running the timer with handle \<open>t\<close>: nothing if it is not
  pending (it fired already or was cleared); otherwise it leaves the table, its callback
  runs, and the microtasks queued meanwhile run before the next task. \<open>fires\<close> runs
  timers in a given order, \<open>tick\<close> the oldest pending one.
\<close>

definition fire :: "nat \<Rightarrow> world \<Rightarrow> world" where
  "fire t w =
     (case find (\<lambda>e. fst e = t) (timers w) of
        None \<Rightarrow> w
      | Some (_, _, cb) \<Rightarrow> drain (run_callback cb (clearTimeout t w)))"

definition fires :: "nat list \<Rightarrow> world \<Rightarrow> world" where
  "fires ts w = fold fire ts w"

definition tick :: "world \<Rightarrow> world" where
  "tick w = (case timers w of [] \<Rightarrow> w | e # _ \<Rightarrow> fire (fst e) w)"

definition ticks :: "nat \<Rightarrow> world \<Rightarrow> world" where
  "ticks n w = (tick ^^ n) w"

section \<open>Construction\<close>

text \<open>
  The page before any script object exists: no timer, no promise, an empty output element,
  the outcomes \<open>r\<close> of \<^verbatim>\<open>Math.random()\<close>, the sound manager \<open>sm\<close> and
  \<^verbatim>\<open>window.codeSnippets\<close>. The engine's defaults are those of its constructor.
\<close>

definition default_engine_options :: engine_options where
  "default_engine_options =
     \<lparr>baseSpeed = 50, speedVariation = 30, pauseChance = 1/10, pauseDuration = 200,
      errorChance = 1/50, errorCorrectDelay = 500\<rparr>"

definition default_controller_options :: controller_options where
  "default_controller_options =
     \<lparr>autoStart = True, autoRotate = True, rotateInterval = 30000, typingSpeed = 60,
      waitAfterComplete = 5000\<rparr>"

definition blank_page :: "(nat \<Rightarrow> rat) \<Rightarrow> bool option \<Rightarrow> snippet list \<Rightarrow> world" where
  "blank_page r sm codeSnippets =
     \<lparr>timers = [], timer_count = 0, promises = [], microtasks = [], rnd = r, rng = 0,
      soundManager = sm, cues = [], console = [], textContent = [], className = [],
      container_state = None, options = default_engine_options, isTyping = False,
      isPaused = False, currentTimeout = None, onComplete = None, onProgress = None,
      onError = None, targetText = None, ctl_options = default_controller_options,
      currentSnippetIndex = Num 0, ctl_isTyping = False, ctl_isPaused = False,
      isUserInteracting = False, autoRotateTimer = None, typingCompleteTimer = None,
      snippets = codeSnippets\<rparr>"

definition new_TypingEngine :: "engine_options \<Rightarrow> world \<Rightarrow> world" where
  "new_TypingEngine opts w =
     w\<lparr>options := opts, isTyping := False, isPaused := False, currentTimeout := None,
       onComplete := None, onProgress := None, onError := None\<rparr>"

definition setupTypingCallbacks :: "world \<Rightarrow> world" where
  "setupTypingCallbacks w =
     onTypingError ControllerError
       (onTypingComplete ControllerComplete (onTypingProgress ControllerProgress w))"

definition init :: "world \<Rightarrow> world" where
  "init w =
     (let w = new_TypingEngine
                (default_engine_options\<lparr>baseSpeed := typingSpeed (ctl_options w),
                   speedVariation := 20, pauseChance := 2/25, errorChance := 3/200\<rparr>) w;
          w = setupTypingCallbacks w;
          w = updateUI w
      in if autoStart (ctl_options w) \<and> length (snippets w) > 0
         then snd (setTimeout AutoStart 1000 w)
         else w)"

definition new_TerminalController :: "controller_options \<Rightarrow> world \<Rightarrow> world" where
  "new_TerminalController opts w =
     init (w\<lparr>ctl_options := opts, currentSnippetIndex := Num 0, ctl_isTyping := False,
             ctl_isPaused := False, isUserInteracting := False, autoRotateTimer := None,
             typingCompleteTimer := None\<rparr>)"

section \<open>Sample pages\<close>

text \<open>
  Concrete pages on which the theorems below are exercised: a controller over the three
  snippets \<open>a\<close>, \<open>bb\<close>, \<open>ccc\<close>, one over no snippet at all, and engines on their
  own. With every random outcome \<open>1/2\<close> no pause is added and no typing error is
  simulated; with every outcome \<open>0\<close> and \<open>errorChance = 1\<close> every character is
  mistyped first.
\<close>

definition mk_snippet :: "string \<Rightarrow> snippet" where
  "mk_snippet c = \<lparr>snippet_id = c, title = c, language = ''javascript'', code = c\<rparr>"

definition three_snippets :: "snippet list" where
  "three_snippets = [mk_snippet ''a'', mk_snippet ''bb'', mk_snippet ''ccc'']"

definition demo_controller :: world where
  "demo_controller =
     new_TerminalController (default_controller_options\<lparr>autoStart := False\<rparr>)
       (blank_page (\<lambda>_. 1/2) (Some True) three_snippets)"

definition empty_controller :: world where
  "empty_controller =
     new_TerminalController default_controller_options (blank_page (\<lambda>_. 1/2) (Some True) [])"

definition steady_engine :: world where
  "steady_engine = new_TypingEngine default_engine_options (blank_page (\<lambda>_. 1/2) (Some True) [])"

definition erring_engine :: world where
  "erring_engine =
     new_TypingEngine (default_engine_options\<lparr>errorChance := 1\<rparr>)
       (blank_page (\<lambda>_. 0) (Some True) [])"

section \<open>Histories of an engine\<close>

text \<open>
  What can happen to an engine used on its own: a script calls one of its methods, or
  the event loop runs a timer. \<open>run_events\<close> plays a history from left to right.
\<close>

datatype event =
    CallTypeText string string
  | CallTypeWithCursor string string
  | CallPause
  | CallResume
  | CallStop
  | CallClear
  | CallSetSpeed rat
  | TimerFires nat

definition apply_event :: "event \<Rightarrow> world \<Rightarrow> world" where
  "apply_event e w =
     (case e of
        CallTypeText text lang \<Rightarrow> snd (typeText text lang w)
      | CallTypeWithCursor text lang \<Rightarrow> snd (typeWithCursor text lang w)
      | CallPause \<Rightarrow> pause w
      | CallResume \<Rightarrow> resume w
      | CallStop \<Rightarrow> stop w
      | CallClear \<Rightarrow> clear w
      | CallSetSpeed b \<Rightarrow> setSpeed b w
      | TimerFires t \<Rightarrow> fire t w)"

definition run_events :: "event list \<Rightarrow> world \<Rightarrow> world" where
  "run_events es w = fold apply_event es w"

section \<open>Notions used in the proofs\<close>

text \<open>
  What one step of emission does, spelled out: the cues the character's class plays in
  \<^verbatim>\<open>_typeCharacters\<close> (\<open>class_cues\<close>), the factor on the delay, the delay itself, the
  cue log after playing (\<open>played\<close>), whether the step simulates a typing error
  (\<open>mistakes\<close>), and the wrong character it shows. These are not part of the model;
  \<open>typeCharacters_active\<close> below proves that the model computes exactly them.
\<close>

definition class_cues :: "char \<Rightarrow> cue list" where
  "class_cues c =
     (if c = newline then [Enter]
      else if c = CHR '' '' \<or> c \<in> set ''.!?;'' \<or> isUpper c then []
      else [Keypress])"

definition class_factor :: "char \<Rightarrow> rat" where
  "class_factor c =
     (if c = newline then 2 else if c = CHR '' '' then 3/2
      else if c \<in> set ''.!?;'' then 2 else if isUpper c then 6/5 else 1)"

definition char_delay :: "world \<Rightarrow> char \<Rightarrow> rat" where
  "char_delay w c =
     (let s = (baseSpeed (options w) + (rnd w (rng w) - 1/2) * speedVariation (options w))
                * class_factor c
      in if rnd w (Suc (rng w)) < pauseChance (options w) then s + pauseDuration (options w) else s)"

definition played :: "world \<Rightarrow> cue list \<Rightarrow> cue list" where
  "played w cs = (if soundManager w = Some True then cues w @ cs else cues w)"

definition mistakes :: "world \<Rightarrow> char \<Rightarrow> bool" where
  "mistakes w c \<longleftrightarrow> rnd w (Suc (Suc (rng w))) < errorChance (options w) \<and> c \<noteq> newline"

definition wrong_char :: "rat \<Rightarrow> string" where
  "wrong_char r =
     (let i = \<lfloor>r * rat_of_nat (length wrongChars)\<rfloor>
      in if 0 \<le> i \<and> i < int (length wrongChars) then [wrongChars ! nat i] else ''undefined'')"

text \<open>
  A session typing \<open>text\<close> for promise \<open>p\<close> is in progress (\<open>session\<close>) when exactly
  one timer is pending, the engine's own, and the output element shows what the stage of
  that timer says: the first \<open>i\<close> characters before character \<open>i\<close> is typed, one
  wrong character more while a typing error is shown, the first \<open>i\<close> again once it is
  erased. \<open>weight\<close> bounds the timers still to run. \<open>finished\<close> is the state after
  completion. \<open>tidy\<close> is what every history of an engine keeps: a pending timer is the
  engine's, it is the one \<^verbatim>\<open>currentTimeout\<close> names, and it is alone.
\<close>

definition rnd_ok :: "world \<Rightarrow> bool" where
  "rnd_ok w \<longleftrightarrow> (\<forall>n. 0 \<le> rnd w n \<and> rnd w n < 1)"

definition stage_ok :: "string \<Rightarrow> callback \<Rightarrow> string \<Rightarrow> bool" where
  "stage_ok text cb shown =
     (case cb of
        TypeNext tx i \<Rightarrow> tx = text \<and> i \<le> length text \<and> shown = take i text
      | ErrBackspace tx i s \<Rightarrow> tx = text \<and> i < length text \<and> (\<exists>c. shown = take i text @ [c])
      | ErrRetype tx i s \<Rightarrow> tx = text \<and> i < length text \<and> shown = take i text
      | _ \<Rightarrow> False)"

fun weight :: "string \<Rightarrow> callback \<Rightarrow> nat" where
  "weight text (TypeNext tx i) = 3 * (length text - i) + 1"
| "weight text (ErrBackspace tx i s) = 3 * (length text - i)"
| "weight text (ErrRetype tx i s) = 3 * (length text - i) - 1"
| "weight text _ = 0"

definition session :: "string \<Rightarrow> nat \<Rightarrow> nat \<Rightarrow> world \<Rightarrow> bool" where
  "session text p k w \<longleftrightarrow>
     isTyping w \<and> \<not> isPaused w \<and> onComplete w = Some (Resolve p)
     \<and> p < length (promises w) \<and> fst (promises w ! p) = Pending \<and> rnd_ok w
     \<and> (\<exists>t d cb. timers w = [(t, d, cb)] \<and> currentTimeout w = Some t
           \<and> stage_ok text cb (textContent w) \<and> weight text cb \<le> k)"

definition finished :: "string \<Rightarrow> nat \<Rightarrow> world \<Rightarrow> bool" where
  "finished text p w \<longleftrightarrow>
     \<not> isTyping w \<and> timers w = [] \<and> textContent w = text
     \<and> p < length (promises w) \<and> fst (promises w ! p) = Fulfilled"

definition engine_cb :: "callback \<Rightarrow> bool" where
  "engine_cb cb =
     (case cb of TypeNext tx i \<Rightarrow> True | ErrBackspace tx i s \<Rightarrow> True
      | ErrRetype tx i s \<Rightarrow> True | _ \<Rightarrow> False)"

definition tidy :: "world \<Rightarrow> bool" where
  "tidy w \<longleftrightarrow>
     (timers w = []
      \<or> (isTyping w \<and> \<not> isPaused w
          \<and> (\<exists>t d cb. timers w = [(t, d, cb)] \<and> currentTimeout w = Some t \<and> engine_cb cb)))
     \<and> (isTyping w \<longrightarrow> (\<exists>p. onComplete w = Some (Resolve p)))"

text \<open>
  A promise is \<open>abandoned\<close> when it is pending and no running session would fulfil
  it on completion.
\<close>

definition abandoned :: "nat \<Rightarrow> world \<Rightarrow> bool" where
  "abandoned p w \<longleftrightarrow>
     p < length (promises w) \<and> fst (promises w ! p) = Pending
     \<and> (isTyping w \<longrightarrow> onComplete w \<noteq> Some (Resolve p))"

section \<open>One step of the engine\<close>

lemma simulateError_eq:
  "simulateError text i s w =
     w\<lparr>rng := Suc (rng w), cues := played w [Keypress],
       textContent := textContent w @ wrong_char (rnd w (rng w)),
       timers := timers w @ [(Suc (timer_count w), errorCorrectDelay (options w), ErrBackspace text i s)],
       timer_count := Suc (timer_count w), currentTimeout := Some (Suc (timer_count w))\<rparr>"
  by (simp add: simulateError_def Let_def Math_random_def setTimeout_def highlightSyntax_def
      playKeypressSound_def played_def wrong_char_def)

lemma typeCharacters_active:
  assumes "isTyping w" "\<not> isPaused w" "i < length text"
  shows "typeCharacters text i w =
     (if mistakes w (text ! i)
      then w\<lparr>rng := Suc (Suc (Suc (Suc (rng w)))), cues := played w (class_cues (text ! i) @ [Keypress]),
             textContent := textContent w @ wrong_char (rnd w (Suc (Suc (Suc (rng w))))),
             timers := timers w @ [(Suc (timer_count w), errorCorrectDelay (options w),
                                   ErrBackspace text i (char_delay w (text ! i)))],
             timer_count := Suc (timer_count w), currentTimeout := Some (Suc (timer_count w))\<rparr>
      else w\<lparr>rng := Suc (Suc (Suc (rng w))), cues := played w (class_cues (text ! i)),
             textContent := textContent w @ [text ! i],
             timers := timers w @ [(Suc (timer_count w), char_delay w (text ! i),
                                   TypeNext text (Suc i))],
             timer_count := Suc (timer_count w), currentTimeout := Some (Suc (timer_count w))\<rparr>)"
proof -
  let ?c = "text ! i"
  note defs = typeCharacters_def simulateError_eq Let_def Math_random_def setTimeout_def
      highlightSyntax_def playKeypressSound_def playEnterSound_def call_progress_def
      updateProgress_def class_cues_def class_factor_def char_delay_def played_def mistakes_def
  consider (nl) "?c = newline"
    | (sp) "?c \<noteq> newline" "?c = CHR '' ''"
    | (pu) "?c \<noteq> newline" "?c \<noteq> CHR '' ''" "?c \<in> set ''.!?;''"
    | (up) "?c \<noteq> newline" "?c \<noteq> CHR '' ''" "?c \<notin> set ''.!?;''" "isUpper ?c"
    | (ot) "?c \<noteq> newline" "?c \<noteq> CHR '' ''" "?c \<notin> set ''.!?;''" "\<not> isUpper ?c"
    by blast
  then show ?thesis
  proof cases
    case nl
    with assms show ?thesis
      by (simp add: defs split: option.splits progress_cb.splits)
  next
    case sp
    with assms show ?thesis
      by (simp add: defs split: option.splits progress_cb.splits)
  next
    case pu
    with assms show ?thesis
      by (simp add: defs split: option.splits progress_cb.splits)
  next
    case up
    with assms show ?thesis
      by (simp add: defs split: option.splits progress_cb.splits)
  next
    case ot
    with assms show ?thesis
      by (simp add: defs split: option.splits progress_cb.splits)
  qed
qed

section \<open>Microtasks, promises and timers\<close>

lemma after_frame:
  "typeCurrentSnippet_after m w =
      w\<lparr>console := console (typeCurrentSnippet_after m w),
        container_state := container_state (typeCurrentSnippet_after m w),
        ctl_isTyping := ctl_isTyping (typeCurrentSnippet_after m w)\<rparr>"
  by (cases m) (simp_all add: typeCurrentSnippet_after_def setState_def)

lemma fold_after_frame:
  "\<exists>a b c. fold typeCurrentSnippet_after ms w =
     w\<lparr>console := a, container_state := b, ctl_isTyping := c\<rparr>"
proof (induction ms arbitrary: w)
  case Nil
  have "w = w\<lparr>console := console w, container_state := container_state w,
      ctl_isTyping := ctl_isTyping w\<rparr>"
    by simp
  then show ?case
    by (metis fold_simps(1))
next
  case (Cons m ms)
  obtain a b c where 1: "fold typeCurrentSnippet_after ms (typeCurrentSnippet_after m w) =
      (typeCurrentSnippet_after m w)\<lparr>console := a, container_state := b, ctl_isTyping := c\<rparr>"
    using Cons.IH by blast
  have "fold typeCurrentSnippet_after (m # ms) w =
      w\<lparr>console := a, container_state := b, ctl_isTyping := c\<rparr>"
    unfolding fold_simps comp_apply 1 by (subst after_frame) simp
  then show ?case by blast
qed

lemma drain_frame:
  "\<exists>a b c. drain w = w\<lparr>microtasks := [], console := a, container_state := b, ctl_isTyping := c\<rparr>"
  using fold_after_frame [of "microtasks w" "w\<lparr>microtasks := []\<rparr>"]
  by (simp add: drain_def)

lemma drain_fields [simp]:
  "timers (drain w) = timers w" "promises (drain w) = promises w" "rnd (drain w) = rnd w"
  "textContent (drain w) = textContent w" "isTyping (drain w) = isTyping w"
  "isPaused (drain w) = isPaused w" "currentTimeout (drain w) = currentTimeout w"
  "onComplete (drain w) = onComplete w" "cues (drain w) = cues w"
  "typingCompleteTimer (drain w) = typingCompleteTimer w" "targetText (drain w) = targetText w"
  "microtasks (drain w) = []"
  using drain_frame [of w] by auto

lemma settle_fields [simp]:
  "timers (settle p outcome w) = timers w" "textContent (settle p outcome w) = textContent w"
  "isTyping (settle p outcome w) = isTyping w" "isPaused (settle p outcome w) = isPaused w"
  "onComplete (settle p outcome w) = onComplete w" "rnd (settle p outcome w) = rnd w"
  "currentTimeout (settle p outcome w) = currentTimeout w" "cues (settle p outcome w) = cues w"
  "length (promises (settle p outcome w)) = length (promises w)"
  by (simp_all add: settle_def Let_def)

lemma settle_promise [simp]:
  "p < length (promises w) \<Longrightarrow> fst (promises w ! p) = Pending
    \<Longrightarrow> fst (promises (settle p outcome w) ! p) = outcome"
  by (simp add: settle_def Let_def)

lemma settle_pending:
  assumes "p < length (promises w)" "fst (promises w ! p) = Pending"
  shows "promises (settle p outcome w) = (promises w)[p := (outcome, snd (promises w ! p))]"
  using assms by (simp add: settle_def Let_def)

lemma typeCharacters_done:
  assumes "isTyping w" "\<not> isPaused w" "length text \<le> i" "onComplete w = Some (Resolve p)"
  shows "typeCharacters text i w =
     settle p Fulfilled (w\<lparr>isTyping := False, cues := played w [Complete]\<rparr>)"
  using assms
  by (simp add: typeCharacters_def completeTyping_def call_complete_def highlightSyntax_def
      Let_def played_def)

lemma fire_absent: "t \<notin> fst ` set (timers w) \<Longrightarrow> fire t w = w"
proof -
  assume "t \<notin> fst ` set (timers w)"
  then have "find (\<lambda>e. fst e = t) (timers w) = None"
    by (force simp: find_None_iff)
  then show ?thesis by (simp add: fire_def)
qed

lemma fire_single:
  "timers w = [(t, d, cb)] \<Longrightarrow> fire t w = drain (run_callback cb (w\<lparr>timers := []\<rparr>))"
  by (simp add: fire_def clearTimeout_def)

lemma tick_single: "timers w = [(t, d, cb)] \<Longrightarrow> tick w = fire t w"
  by (simp add: tick_def)

lemma tick_idle: "timers w = [] \<Longrightarrow> tick w = w"
  by (simp add: tick_def)

lemma ticks_idle: "timers w = [] \<Longrightarrow> ticks n w = w"
  by (induction n) (simp_all add: ticks_def tick_idle)

lemma fires_idle: "timers w = [] \<Longrightarrow> fires ts w = w"
  by (induction ts) (simp_all add: fires_def fire_absent)

lemma run_ErrBackspace:
  "run_callback (ErrBackspace text i s) w =
     w\<lparr>textContent := butlast (textContent w), cues := played w [Backspace],
       timers := timers w @ [(Suc (timer_count w), 100, ErrRetype text i s)],
       timer_count := Suc (timer_count w), currentTimeout := Some (Suc (timer_count w))\<rparr>"
  by (simp add: run_callback_def Let_def playBackspaceSound_def highlightSyntax_def
      setTimeout_def played_def)

lemma run_ErrRetype:
  "run_callback (ErrRetype text i s) w =
     w\<lparr>textContent := textContent w @ [text ! i], cues := played w [Keypress],
       timers := timers w @ [(Suc (timer_count w), s, TypeNext text (Suc i))],
       timer_count := Suc (timer_count w), currentTimeout := Some (Suc (timer_count w))\<rparr>"
  by (simp add: run_callback_def Let_def playKeypressSound_def highlightSyntax_def
      setTimeout_def played_def)

lemma run_TypeNext: "run_callback (TypeNext text i) w = typeCharacters text i w"
  by (simp add: run_callback_def)

lemma wrong_char_single:
  assumes "0 \<le> r" "r < 1"
  shows "\<exists>c. wrong_char r = [c]"
proof -
  have "0 \<le> r * 26" "r * 26 < 26" using assms by simp_all
  then have "0 \<le> \<lfloor>r * 26\<rfloor>" "\<lfloor>r * 26\<rfloor> < 26"
    by (simp_all add: floor_less_iff)
  then show ?thesis
    by (simp add: wrong_char_def wrongChars_def Let_def)
qed

lemma session_step:
  assumes "session text p k w"
  shows "0 < k \<and> (session text p (k - 1) (tick w) \<or> finished text p (tick w))"
proof -
  from assms obtain t d cb where
    act: "isTyping w" "\<not> isPaused w" and oc: "onComplete w = Some (Resolve p)"
    and pr: "p < length (promises w)" "fst (promises w ! p) = Pending" and ok: "rnd_ok w"
    and tm: "timers w = [(t, d, cb)]" and ct: "currentTimeout w = Some t"
    and st: "stage_ok text cb (textContent w)" and wt: "weight text cb \<le> k"
    unfolding session_def by blast
  let ?w = "w\<lparr>timers := []\<rparr>"
  have tick: "tick w = drain (run_callback cb ?w)"
    using tm by (simp add: tick_single fire_single)
  show ?thesis
  proof (cases cb)
    case (TypeNext tx i)
    with st have tx: "tx = text" and i: "i \<le> length text" and shown: "textContent w = take i text"
      by (simp_all add: stage_ok_def)
    show ?thesis
    proof (cases "i < length text")
      case True
      have a: "isTyping ?w" "\<not> isPaused ?w" using act by simp_all
      note eq = typeCharacters_active [OF a True]
      obtain c where c: "wrong_char (rnd w (Suc (Suc (Suc (rng w))))) = [c]"
        using ok wrong_char_single unfolding rnd_ok_def by blast
      have "session text p (k - 1) (tick w)"
        using act oc pr ok True wt shown c
        unfolding tick TypeNext tx run_TypeNext eq session_def
        by (auto simp: rnd_ok_def stage_ok_def take_Suc_conv_app_nth)
      moreover have "0 < k" using wt TypeNext by simp
      ultimately show ?thesis by blast
    next
      case False
      with i have len: "i = length text" by simp
      have a: "isTyping ?w" "\<not> isPaused ?w" "length text \<le> i" "onComplete ?w = Some (Resolve p)"
        using act oc len by simp_all
      note eq = typeCharacters_done [OF a]
      let ?v = "?w\<lparr>isTyping := False, cues := played ?w [Complete]\<rparr>"
      have pv: "p < length (promises ?v)" "fst (promises ?v ! p) = Pending"
        using pr by simp_all
      have "finished text p (tick w)"
        using pr shown len
        unfolding tick TypeNext tx run_TypeNext eq finished_def
        by (simp add: settle_pending [OF pv])
      moreover have "0 < k" using wt TypeNext by simp
      ultimately show ?thesis by blast
    qed
  next
    case (ErrBackspace tx i s)
    with st obtain c where tx: "tx = text" and i: "i < length text"
      and shown: "textContent w = take i text @ [c]"
      by (auto simp: stage_ok_def)
    have "session text p (k - 1) (tick w)"
      using act oc pr ok i wt shown
      unfolding tick ErrBackspace tx run_ErrBackspace session_def
      by (simp add: rnd_ok_def stage_ok_def)
    moreover have "0 < k" using wt ErrBackspace i by simp
    ultimately show ?thesis by blast
  next
    case (ErrRetype tx i s)
    with st have tx: "tx = text" and i: "i < length text" and shown: "textContent w = take i text"
      by (simp_all add: stage_ok_def)
    have "session text p (k - 1) (tick w)"
      using act oc pr ok i wt shown
      unfolding tick ErrRetype tx run_ErrRetype session_def
      by (simp add: rnd_ok_def stage_ok_def take_Suc_conv_app_nth)
    moreover have "0 < k" using wt ErrRetype i by simp
    ultimately show ?thesis by blast
  next
    case HoldElapsed
    with st show ?thesis by (simp add: stage_ok_def)
  next
    case CooldownElapsed
    with st show ?thesis by (simp add: stage_ok_def)
  next
    case AutoStart
    with st show ?thesis by (simp add: stage_ok_def)
  qed
qed

lemma session_mono: "session text p k w \<Longrightarrow> k \<le> k' \<Longrightarrow> session text p k' w"
  unfolding session_def by (meson le_trans)

lemma finished_ticks: "finished text p w \<Longrightarrow> ticks n w = w"
  by (simp add: finished_def ticks_idle)

lemma finished_fires: "finished text p w \<Longrightarrow> fires ts w = w"
  by (simp add: finished_def fires_idle)

lemma ticks_Suc: "ticks (Suc n) w = ticks n (tick w)"
  by (simp add: ticks_def funpow_swap1)

lemma session_runs:
  "session text p k w \<Longrightarrow> finished text p (ticks k w)"
proof (induction k arbitrary: w)
  case 0
  then show ?case using session_step by blast
next
  case (Suc k)
  from session_step [OF Suc.prems]
  have "session text p k (tick w) \<or> finished text p (tick w)" by simp
  then show ?case
  proof
    assume "session text p k (tick w)"
    then show ?thesis using Suc.IH by (simp add: ticks_Suc)
  next
    assume f: "finished text p (tick w)"
    then show ?thesis by (simp add: ticks_Suc finished_ticks)
  qed
qed

lemma session_completes:
  assumes "session text p k w \<or> finished text p w" "k \<le> n"
  shows "finished text p (ticks n w)"
proof -
  from assms(1) show ?thesis
  proof
    assume "session text p k w"
    then have "session text p n w" using assms(2) by (rule session_mono)
    then show ?thesis by (rule session_runs)
  next
    assume "finished text p w"
    then show ?thesis by (simp add: finished_ticks)
  qed
qed

lemma session_fire:
  assumes "session text p k w"
  shows "session text p k (fire t w) \<or> finished text p (fire t w)"
proof -
  from assms obtain t' d cb where tm: "timers w = [(t', d, cb)]"
    unfolding session_def by blast
  show ?thesis
  proof (cases "t = t'")
    case True
    then have "fire t w = tick w" using tm by (simp add: tick_single)
    with session_step [OF assms] show ?thesis
      using session_mono [of "text" p "k - 1" "tick w" k] by auto
  next
    case False
    then have "fire t w = w" using tm by (simp add: fire_absent)
    with assms show ?thesis by simp
  qed
qed

lemma session_fires:
  assumes "session text p k w \<or> finished text p w"
  shows "session text p k (fires ts w) \<or> finished text p (fires ts w)"
  using assms
proof (induction ts arbitrary: w)
  case Nil
  then show ?case by (simp add: fires_def)
next
  case (Cons t ts)
  have "session text p k (fire t w) \<or> finished text p (fire t w)"
    using Cons.prems session_fire [of "text" p k w t] finished_fires [of "text" p w "[t]"]
    by (auto simp: fires_def)
  from Cons.IH [OF this] show ?case by (simp add: fires_def)
qed

lemma typeText_promise: "fst (typeText text lang w) = length (promises w)"
  by (simp add: typeText_def new_promise_def Let_def split_def)

lemma typeText_starts:
  assumes "\<not> isTyping w" "timers w = []" "rnd_ok w"
  shows "session text (length (promises w)) (3 * length text) (snd (typeText text lang w))
       \<or> finished text (length (promises w)) (snd (typeText text lang w))"
proof -
  let ?p = "length (promises w)"
  let ?w = "w\<lparr>promises := promises w @ [(Pending, False)], isTyping := True, isPaused := False,
      onComplete := Some (Resolve ?p), onError := Some (Reject ?p), textContent := [],
      className := ''language-'' @ lang\<rparr>"
  have eq: "snd (typeText text lang w) = typeCharacters text 0 ?w"
    using assms(1) by (simp add: typeText_def new_promise_def Let_def)
  have a: "isTyping ?w" "\<not> isPaused ?w" by simp_all
  show ?thesis
  proof (cases "text = []")
    case True
    have b: "length text \<le> 0" "onComplete ?w = Some (Resolve ?p)" using True by simp_all
    let ?v = "?w\<lparr>isTyping := False, cues := played ?w [Complete]\<rparr>"
    have pv: "?p < length (promises ?v)" "fst (promises ?v ! ?p) = Pending"
      by simp_all
    have "finished text ?p (snd (typeText text lang w))"
      using assms True
      unfolding eq typeCharacters_done [OF a b] finished_def
      by simp
    then show ?thesis ..
  next
    case False
    then obtain x xs where tx: "text = x # xs" by (cases "text") auto
    have l: "0 < length text" using tx by simp
    obtain c where c: "wrong_char (rnd w (Suc (Suc (Suc (rng w))))) = [c]"
      using assms(3) wrong_char_single unfolding rnd_ok_def by blast
    have "session text ?p (3 * length text) (snd (typeText text lang w))"
      using assms c
      unfolding eq typeCharacters_active [OF a l] session_def
      by (auto simp: tx rnd_ok_def stage_ok_def nth_append)
    then show ?thesis ..
  qed
qed

lemma typeText_rejected:
  "isTyping w \<Longrightarrow> typeText text' lang' w =
     (length (promises w),
      w\<lparr>promises := promises w @ [(Rejected (Error ''Already typing''), False)]\<rparr>)"
  by (simp add: typeText_def new_promise_def settle_def Let_def nth_append)

lemma session_new_promise:
  "session text p k w \<Longrightarrow> session text p k (w\<lparr>promises := promises w @ [x]\<rparr>)"
  by (auto simp: session_def nth_append rnd_ok_def)

section \<open>What every history of an engine keeps\<close>

lemma tidy_drain [simp]: "tidy (drain w) = tidy w"
  by (simp add: tidy_def)

lemma tidy_idle: "\<not> isTyping w \<Longrightarrow> timers w = [] \<Longrightarrow> tidy w"
  by (simp add: tidy_def)

lemma tidy_typeCharacters:
  assumes "tidy w" "timers w = []"
  shows "tidy (typeCharacters src i w)"
proof (cases "isTyping w \<and> \<not> isPaused w")
  case False
  then show ?thesis using assms(1) by (auto simp: typeCharacters_def)
next
  case True
  then have a: "isTyping w" "\<not> isPaused w" by simp_all
  from assms(1) a obtain p where oc: "onComplete w = Some (Resolve p)"
    by (auto simp: tidy_def)
  show ?thesis
  proof (cases "i < length src")
    case True
    show ?thesis
      using a oc assms(2)
      unfolding typeCharacters_active [OF a True] tidy_def
      by (simp add: engine_cb_def)
  next
    case False
    then have l: "length src \<le> i" by simp
    show ?thesis
      using assms(2)
      unfolding typeCharacters_done [OF a l oc] tidy_def
      by simp
  qed
qed

lemma tidy_typeText: "tidy w \<Longrightarrow> tidy (snd (typeText src lang w))"
proof (cases "isTyping w")
  case True
  assume "tidy w"
  then show ?thesis
    unfolding typeText_rejected [OF True] by (simp add: tidy_def)
next
  case False
  assume t: "tidy w"
  with False have tm: "timers w = []" by (auto simp: tidy_def)
  let ?p = "length (promises w)"
  let ?w = "w\<lparr>promises := promises w @ [(Pending, False)], isTyping := True, isPaused := False,
      onComplete := Some (Resolve ?p), onError := Some (Reject ?p), textContent := [],
      className := ''language-'' @ lang\<rparr>"
  have eq: "snd (typeText src lang w) = typeCharacters src 0 ?w"
    using False by (simp add: typeText_def new_promise_def Let_def)
  have "tidy ?w" "timers ?w = []" using tm by (simp_all add: tidy_def)
  then show ?thesis unfolding eq by (rule tidy_typeCharacters)
qed

lemma tidy_targetText [simp]: "tidy (w\<lparr>targetText := x\<rparr>) = tidy w"
  by (simp add: tidy_def)

lemma tidy_pause: "tidy w \<Longrightarrow> tidy (pause w)"
  by (auto simp: tidy_def pause_def clearTimeout_def Let_def split: option.splits)

lemma tidy_resume: "tidy w \<Longrightarrow> tidy (resume w)"
proof -
  assume t: "tidy w"
  show ?thesis
  proof (cases "isTyping w \<and> isPaused w")
    case False
    then show ?thesis using t by (auto simp: resume_def)
  next
    case True
    with t have tm: "timers w = []" by (auto simp: tidy_def)
    have "tidy (w\<lparr>isPaused := False\<rparr>)" "timers (w\<lparr>isPaused := False\<rparr>) = []"
      using t tm True by (auto simp: tidy_def)
    then show ?thesis
      using True tidy_typeCharacters by (simp add: resume_def Let_def)
  qed
qed

lemma stop_clears: "tidy w \<Longrightarrow> timers (stop w) = [] \<and> \<not> isTyping (stop w)"
  by (auto simp: tidy_def stop_def clearTimeout_def Let_def split: option.splits)

lemma stop_fields:
  "promises (stop w) = promises w" "cues (stop w) = cues w"
  "textContent (stop w) = textContent w" "typingCompleteTimer (stop w) = typingCompleteTimer w"
  by (simp_all add: stop_def clearTimeout_def Let_def split: option.splits)

lemma tidy_stop: "tidy w \<Longrightarrow> tidy (stop w)"
  using stop_clears tidy_idle by blast

lemma tidy_clear: "tidy w \<Longrightarrow> tidy (clear w)"
  using tidy_stop [of w] by (simp add: clear_def tidy_def)

lemma tidy_setSpeed: "tidy w \<Longrightarrow> tidy (setSpeed b w)"
  by (simp add: setSpeed_def tidy_def)

lemma tidy_fire: "tidy w \<Longrightarrow> tidy (fire t w)"
proof -
  assume t: "tidy w"
  show ?thesis
  proof (cases "t \<in> fst ` set (timers w)")
    case False
    then show ?thesis using t by (simp add: fire_absent)
  next
    case True
    with t obtain d cb where tm: "timers w = [(t, d, cb)]" and a: "isTyping w" "\<not> isPaused w"
      and e: "engine_cb cb"
      by (auto simp: tidy_def)
    let ?w = "w\<lparr>timers := []\<rparr>"
    have tw: "tidy ?w" "timers ?w = []" using t by (simp_all add: tidy_def)
    have "tidy (run_callback cb ?w)"
    proof (cases cb)
      case (TypeNext tx i)
      then show ?thesis using tw tidy_typeCharacters by (simp add: run_TypeNext)
    next
      case (ErrBackspace tx i s)
      then show ?thesis using t a by (simp add: run_ErrBackspace tidy_def engine_cb_def)
    next
      case (ErrRetype tx i s)
      then show ?thesis using t a by (simp add: run_ErrRetype tidy_def engine_cb_def)
    qed (use e in \<open>simp_all add: engine_cb_def\<close>)
    then show ?thesis by (simp add: fire_single [OF tm])
  qed
qed

lemma tidy_apply_event: "tidy w \<Longrightarrow> tidy (apply_event e w)"
  by (cases e)
    (simp_all add: apply_event_def typeWithCursor_def tidy_typeText tidy_pause tidy_resume
      tidy_stop tidy_clear tidy_setSpeed tidy_fire)

lemma tidy_run_events: "tidy w \<Longrightarrow> tidy (run_events es w)"
  by (induction es arbitrary: w) (simp_all add: run_events_def tidy_apply_event)

lemma settle_other:
  "q \<noteq> p \<Longrightarrow> promises (settle q outcome w) ! p = promises w ! p"
  by (simp add: settle_def Let_def)

lemma abandoned_drain [simp]: "abandoned p (drain w) = abandoned p w"
  by (simp add: abandoned_def)

lemma abandoned_typeCharacters:
  assumes "abandoned p w"
  shows "abandoned p (typeCharacters src i w)"
proof (cases "isTyping w \<and> \<not> isPaused w")
  case False
  then show ?thesis using assms by (auto simp: typeCharacters_def)
next
  case True
  then have a: "isTyping w" "\<not> isPaused w" by simp_all
  show ?thesis
  proof (cases "i < length src")
    case True
    show ?thesis
      using assms a
      unfolding typeCharacters_active [OF a True] abandoned_def
      by simp
  next
    case False
    then have l: "length src \<le> i" by simp
    show ?thesis
    proof (cases "onComplete w")
      case None
      then show ?thesis
        using assms a l
        by (simp add: typeCharacters_def completeTyping_def highlightSyntax_def Let_def
            abandoned_def)
    next
      case (Some cb)
      show ?thesis
      proof (cases cb)
        case (Resolve q)
        with Some assms a have qp: "q \<noteq> p" by (auto simp: abandoned_def)
        have oc: "onComplete w = Some (Resolve q)" using Some Resolve by simp
        show ?thesis
          using assms
          unfolding typeCharacters_done [OF a l oc] abandoned_def
          by (simp add: settle_other [OF qp])
      next
        case ControllerComplete
        then show ?thesis
          using assms a l Some
          by (simp add: typeCharacters_def completeTyping_def highlightSyntax_def Let_def
              abandoned_def call_complete_def ctl_onTypingComplete_def scheduleNextRotation_def
              clearRotationTimers_def clearInterval_def clearTimeout_def setTimeout_def
              setState_def updateUI_def split: option.splits)
      qed
    qed
  qed
qed

lemma abandoned_typeText: "abandoned p w \<Longrightarrow> abandoned p (snd (typeText src lang w))"
proof (cases "isTyping w")
  case True
  assume "abandoned p w"
  then show ?thesis
    unfolding typeText_rejected [OF True] by (simp add: abandoned_def nth_append)
next
  case False
  assume t: "abandoned p w"
  let ?p = "length (promises w)"
  let ?w = "w\<lparr>promises := promises w @ [(Pending, False)], isTyping := True, isPaused := False,
      onComplete := Some (Resolve ?p), onError := Some (Reject ?p), textContent := [],
      className := ''language-'' @ lang\<rparr>"
  have eq: "snd (typeText src lang w) = typeCharacters src 0 ?w"
    using False by (simp add: typeText_def new_promise_def Let_def)
  have "abandoned p ?w" using t by (auto simp: abandoned_def nth_append)
  then show ?thesis unfolding eq by (rule abandoned_typeCharacters)
qed

lemma abandoned_targetText [simp]: "abandoned p (w\<lparr>targetText := x\<rparr>) = abandoned p w"
  by (simp add: abandoned_def)

lemma abandoned_pause: "abandoned p w \<Longrightarrow> abandoned p (pause w)"
  by (auto simp: abandoned_def pause_def clearTimeout_def Let_def split: option.splits)

lemma abandoned_resume: "abandoned p w \<Longrightarrow> abandoned p (resume w)"
proof -
  assume t: "abandoned p w"
  then have "abandoned p (w\<lparr>isPaused := False\<rparr>)" by (simp add: abandoned_def)
  then show ?thesis
    using t abandoned_typeCharacters by (simp add: resume_def Let_def)
qed

lemma abandoned_stop:
  "p < length (promises w) \<Longrightarrow> fst (promises w ! p) = Pending \<Longrightarrow> abandoned p (stop w)"
  by (auto simp: abandoned_def stop_def clearTimeout_def Let_def split: option.splits)

lemma abandoned_stop': "abandoned p w \<Longrightarrow> abandoned p (stop w)"
  using abandoned_stop [of p w] by (simp add: abandoned_def)

lemma abandoned_clear: "abandoned p w \<Longrightarrow> abandoned p (clear w)"
  using abandoned_stop' [of p w] by (simp add: clear_def abandoned_def)

lemma abandoned_setSpeed: "abandoned p w \<Longrightarrow> abandoned p (setSpeed b w)"
  by (simp add: setSpeed_def abandoned_def)

lemma abandoned_fire: "tidy w \<Longrightarrow> abandoned p w \<Longrightarrow> abandoned p (fire t w)"
proof -
  assume t: "tidy w" and s: "abandoned p w"
  show ?thesis
  proof (cases "t \<in> fst ` set (timers w)")
    case False
    then show ?thesis using s by (simp add: fire_absent)
  next
    case True
    with t obtain d cb where tm: "timers w = [(t, d, cb)]" and e: "engine_cb cb"
      by (auto simp: tidy_def)
    let ?w = "w\<lparr>timers := []\<rparr>"
    have sw: "abandoned p ?w" using s by (simp add: abandoned_def)
    have "abandoned p (run_callback cb ?w)"
    proof (cases cb)
      case (TypeNext tx i)
      then show ?thesis using sw abandoned_typeCharacters by (simp add: run_TypeNext)
    next
      case (ErrBackspace tx i s)
      then show ?thesis using sw by (simp add: run_ErrBackspace abandoned_def)
    next
      case (ErrRetype tx i s)
      then show ?thesis using sw by (simp add: run_ErrRetype abandoned_def)
    qed (use e in \<open>simp_all add: engine_cb_def\<close>)
    then show ?thesis by (simp add: fire_single [OF tm])
  qed
qed

lemma abandoned_apply_event: "tidy w \<Longrightarrow> abandoned p w \<Longrightarrow> abandoned p (apply_event e w)"
  by (cases e)
    (simp_all add: apply_event_def typeWithCursor_def abandoned_typeText abandoned_pause
      abandoned_resume abandoned_stop' abandoned_clear abandoned_setSpeed abandoned_fire)

lemma abandoned_run_events:
  "tidy w \<Longrightarrow> abandoned p w \<Longrightarrow> abandoned p (run_events es w)"
proof (induction es arbitrary: w)
  case Nil
  then show ?case by (simp add: run_events_def)
next
  case (Cons e es)
  have "tidy (apply_event e w)" "abandoned p (apply_event e w)"
    using Cons.prems by (simp_all add: tidy_apply_event abandoned_apply_event)
  from Cons.IH [OF this] show ?case by (simp add: run_events_def)
qed

section \<open>A run and its source text\<close>

text \<open>
  Timers alone. \<^verbatim>\<open>typeText\<close> is called on an engine with no session active and no timer
  pending, and nothing but the engine's timers happens afterwards (no call of
  \<^verbatim>\<open>stop\<close>, \<^verbatim>\<open>pause\<close>, \<^verbatim>\<open>resume\<close> or \<^verbatim>\<open>typeText\<close>). Whatever the outcomes of
  \<^verbatim>\<open>Math.random()\<close> (numbers in \<open>[0, 1)\<close>) and whatever the options: in every state in
  which the returned promise is fulfilled the output element shows exactly the source
  text, and after at most \<open>3 * length text\<close> timers the promise is fulfilled. Each
  simulated typing error (wrong character, backspace, correct character) nets to the
  original string on such a run; with \<open>errorChance = 1\<close> on the text \<open>x\<close>, \<open>q\<close> is
  shown, erased, and \<open>x\<close> is typed.
\<close>

theorem typeText_renders_source:
  assumes "\<not> isTyping w0" and "timers w0 = []" and "\<forall>n. 0 \<le> rnd w0 n \<and> rnd w0 n < 1"
  shows "fst (typeText text lang w0) = length (promises w0)
    \<and> (\<forall>ts. fst (promises (fires ts (snd (typeText text lang w0))) ! length (promises w0)) = Fulfilled
           \<longrightarrow> textContent (fires ts (snd (typeText text lang w0))) = text)
    \<and> (\<forall>n \<ge> 3 * length text.
           fst (promises (ticks n (snd (typeText text lang w0))) ! length (promises w0)) = Fulfilled
           \<and> textContent (ticks n (snd (typeText text lang w0))) = text)"
proof -
  let ?p = "length (promises w0)"
  let ?w = "snd (typeText text lang w0)"
  have ok: "rnd_ok w0" using assms(3) by (simp add: rnd_ok_def)
  note start = typeText_starts [OF assms(1,2) ok, of "text" lang]
  have safe: "textContent (fires ts ?w) = text"
    if "fst (promises (fires ts ?w) ! ?p) = Fulfilled" for ts
    using session_fires [OF start, of ts] that
    by (auto simp: session_def finished_def)
  have live: "fst (promises (ticks n ?w) ! ?p) = Fulfilled \<and> textContent (ticks n ?w) = text"
    if "3 * length text \<le> n" for n
    using session_completes [OF start that] by (simp add: finished_def)
  show ?thesis
    using safe live by (simp add: typeText_promise)
qed

theorem typeText_renders_source_witness:
  "\<not> isTyping erring_engine \<and> timers erring_engine = []
   \<and> errorChance (options erring_engine) = 1
   \<and> textContent (snd (typeText ''x'' ''javascript'' erring_engine)) = ''q''
   \<and> textContent (ticks 1 (snd (typeText ''x'' ''javascript'' erring_engine))) = []
   \<and> textContent (ticks 3 (snd (typeText ''x'' ''javascript'' erring_engine))) = ''x''
   \<and> fst (promises (ticks 3 (snd (typeText ''x'' ''javascript'' erring_engine))) ! 0) = Fulfilled"
proof -
  have idle: "\<not> isTyping erring_engine" "timers erring_engine = []"
    "length (promises erring_engine) = 0"
    by (simp_all add: erring_engine_def new_TypingEngine_def blank_page_def)
  have r: "\<forall>n. 0 \<le> rnd erring_engine n \<and> rnd erring_engine n < 1"
    by (simp add: erring_engine_def new_TypingEngine_def blank_page_def)
  have forced: "errorChance (options erring_engine) = 1"
    by (simp add: erring_engine_def new_TypingEngine_def blank_page_def default_engine_options_def)
  have trace: "textContent (snd (typeText ''x'' ''javascript'' erring_engine)) = ''q''"
    "textContent (ticks 1 (snd (typeText ''x'' ''javascript'' erring_engine))) = []"
    by code_simp+
  show ?thesis
    using typeText_renders_source [OF idle(1,2) r, of "''x''" "''javascript''"] idle forced trace
    by simp
qed

text \<open>
  C1, at a failing input. A run that is paused and resumed (neither \<^verbatim>\<open>stop()\<close> nor a new
  run intervenes) can complete with another text than its source, because \<^verbatim>\<open>resume()\<close>
  restarts from \<^verbatim>\<open>this.targetText\<close> at the length of the shown text. On an engine that
  has typed \<open>abc\<close> through \<^verbatim>\<open>typeWithCursor\<close> and is idle again, \<^verbatim>\<open>typeText('xy')\<close>
  followed by \<^verbatim>\<open>pause()\<close> and \<^verbatim>\<open>resume()\<close> goes on with the old target: the promise of the
  run is fulfilled while the output shows \<open>xbc\<close>. And a run of \<open>ab\<close> with
  \<open>errorChance = 1\<close>, paused while the wrong character \<open>q\<close> is shown and resumed, is
  fulfilled showing \<open>qb\<close>: the error episode does not net to the original string.
\<close>

theorem pause_and_resume_break_completion:
  "\<not> isTyping (ticks 4 (snd (typeWithCursor ''abc'' ''javascript'' steady_engine)))
   \<and> timers (ticks 4 (snd (typeWithCursor ''abc'' ''javascript'' steady_engine))) = []
   \<and> textContent (ticks 4 (snd (typeWithCursor ''abc'' ''javascript'' steady_engine))) = ''abc''
   \<and> fst (typeText ''xy'' ''javascript''
          (ticks 4 (snd (typeWithCursor ''abc'' ''javascript'' steady_engine)))) = 1
   \<and> textContent (snd (typeText ''xy'' ''javascript''
          (ticks 4 (snd (typeWithCursor ''abc'' ''javascript'' steady_engine))))) = ''x''
   \<and> textContent (ticks 3 (resume (pause (snd (typeText ''xy'' ''javascript''
          (ticks 4 (snd (typeWithCursor ''abc'' ''javascript'' steady_engine)))))))) = ''xbc''
   \<and> promises (ticks 3 (resume (pause (snd (typeText ''xy'' ''javascript''
          (ticks 4 (snd (typeWithCursor ''abc'' ''javascript'' steady_engine))))))))
       = [(Fulfilled, False), (Fulfilled, False)]
   \<and> \<not> isTyping erring_engine \<and> timers erring_engine = []
   \<and> fst (typeWithCursor ''ab'' ''javascript'' erring_engine) = 0
   \<and> textContent (snd (typeWithCursor ''ab'' ''javascript'' erring_engine)) = ''q''
   \<and> textContent (ticks 3 (resume (pause (snd (typeWithCursor ''ab'' ''javascript'' erring_engine)))))
       = ''qb''
   \<and> promises (ticks 3 (resume (pause (snd (typeWithCursor ''ab'' ''javascript'' erring_engine)))))
       = [(Fulfilled, False)]"
  by code_simp

section \<open>Pause and resume\<close>

text \<open>
  C2, at a failing input. \<^verbatim>\<open>resume()\<close> restarts from \<^verbatim>\<open>this.targetText\<close>, which only
  \<^verbatim>\<open>typeWithCursor\<close> sets. After \<^verbatim>\<open>typeText('ab')\<close>, \<^verbatim>\<open>pause()\<close>, \<^verbatim>\<open>resume()\<close> the engine
  is typing, not paused, shows \<open>a\<close>, and has no timer pending: the rest is never
  typed and the promise stays pending. After \<^verbatim>\<open>typeWithCursor('ab')\<close> paused while the
  wrong character \<open>q\<close> of a simulated error is shown, \<^verbatim>\<open>resume()\<close> continues at the
  length of the shown text: the run completes showing \<open>qb\<close>.
\<close>

theorem resume_after_pause_loses_the_session:
  "textContent (resume (pause (snd (typeText ''ab'' ''javascript'' steady_engine)))) = ''a''
   \<and> timers (resume (pause (snd (typeText ''ab'' ''javascript'' steady_engine)))) = []
   \<and> isTyping (resume (pause (snd (typeText ''ab'' ''javascript'' steady_engine))))
   \<and> \<not> isPaused (resume (pause (snd (typeText ''ab'' ''javascript'' steady_engine))))
   \<and> promises (ticks 9 (resume (pause (snd (typeText ''ab'' ''javascript'' steady_engine)))))
       = [(Pending, False)]
   \<and> textContent (ticks 9 (resume (pause (snd (typeText ''ab'' ''javascript'' steady_engine)))))
       = ''a''
   \<and> textContent (pause (snd (typeWithCursor ''ab'' ''javascript'' erring_engine))) = ''q''
   \<and> textContent (ticks 3 (resume (pause (snd (typeWithCursor ''ab'' ''javascript'' erring_engine)))))
       = ''qb''
   \<and> promises (ticks 3 (resume (pause (snd (typeWithCursor ''ab'' ''javascript'' erring_engine)))))
       = [(Fulfilled, False)]"
  by code_simp

section \<open>Navigation while typing\<close>

text \<open>
  C3, at a failing input. The controller over the snippets \<open>a\<close>, \<open>bb\<close>, \<open>ccc\<close> is
  started; the engine has typed \<open>a\<close> and its next timer is pending. \<^verbatim>\<open>nextSnippet()\<close>
  (and likewise \<^verbatim>\<open>previousSnippet()\<close>) moves the index and clears the output element, but
  never stops the engine: \<^verbatim>\<open>typeText\<close> rejects with "Already typing", and once the
  microtasks of the call have run the container is in the error state, the old
  session's timer is still pending, and the new snippet is never typed.
\<close>

theorem navigation_while_typing_ends_in_error:
  "(case startDemo demo_controller of
      Inl e \<Rightarrow> False
    | Inr w0 \<Rightarrow>
        isTyping (drain w0) \<and> timers (drain w0) = [(1, 60, TypeNext ''a'' 1)]
        \<and> container_state (drain w0) = Some StTyping
        \<and> currentSnippetIndex (drain (nextSnippet (drain w0))) = Num 1
        \<and> container_state (drain (nextSnippet (drain w0))) = Some StError
        \<and> timers (drain (nextSnippet (drain w0))) = [(1, 60, TypeNext ''a'' 1)]
        \<and> promises (drain (nextSnippet (drain w0)))
            = [(Pending, True), (Rejected (Error ''Already typing''), False)]
        \<and> textContent (drain (nextSnippet (drain w0))) = []
        \<and> textContent (ticks 9 (drain (nextSnippet (drain w0)))) = []
        \<and> container_state (ticks 9 (drain (nextSnippet (drain w0)))) = Some StError
        \<and> currentSnippetIndex (drain (previousSnippet (drain w0))) = Num 2
        \<and> container_state (drain (previousSnippet (drain w0))) = Some StError
        \<and> timers (drain (previousSnippet (drain w0))) = [(1, 60, TypeNext ''a'' 1)])"
  by code_simp

section \<open>One session at a time\<close>

text \<open>
  C4. On an engine that is typing, \<^verbatim>\<open>typeText\<close> returns a promise that is rejected with
  "Already typing" and changes nothing else: the page after the call is the page before
  it with the rejected promise added, so the output text, the pending timer (which holds
  the cursor), the pause flag and the registered callbacks are those of the running
  session. If that session is one started on an idle engine and continued by timers, it
  still runs to completion after the rejected call: \<open>3 * length text\<close> timers later its
  promise is fulfilled and the output shows its text.
\<close>

theorem typeText_while_typing_rejects:
  assumes "isTyping w"
  shows "typeText text' lang' w =
      (length (promises w),
       w\<lparr>promises := promises w @ [(Rejected (Error ''Already typing''), False)]\<rparr>)
    \<and> (\<forall>w0 text lang ts n.
          \<not> isTyping w0 \<and> timers w0 = [] \<and> (\<forall>k. 0 \<le> rnd w0 k \<and> rnd w0 k < 1)
          \<and> w = fires ts (snd (typeText text lang w0)) \<and> 3 * length text \<le> n
          \<longrightarrow> textContent (ticks n (snd (typeText text' lang' w))) = text
            \<and> fst (promises (ticks n (snd (typeText text' lang' w))) ! length (promises w0))
                = Fulfilled)"
proof -
  note rej = typeText_rejected [OF assms, of text' lang']
  have "textContent (ticks n (snd (typeText text' lang' w))) = src
      \<and> fst (promises (ticks n (snd (typeText text' lang' w))) ! length (promises w0)) = Fulfilled"
    if h: "\<not> isTyping w0" "timers w0 = []" "\<forall>k. 0 \<le> rnd w0 k \<and> rnd w0 k < 1"
      "w = fires ts (snd (typeText src lang w0))" "3 * length src \<le> n"
    for w0 src lang ts n
  proof -
    let ?p = "length (promises w0)"
    have ok: "rnd_ok w0" using h(3) by (simp add: rnd_ok_def)
    have "session src ?p (3 * length src) w \<or> finished src ?p w"
      unfolding h(4) by (rule session_fires [OF typeText_starts [OF h(1,2) ok]])
    with assms have "session src ?p (3 * length src) w"
      by (auto simp: finished_def)
    then have "session src ?p (3 * length src) (snd (typeText text' lang' w))"
      unfolding rej by (simp add: session_new_promise)
    then have "finished src ?p (ticks n (snd (typeText text' lang' w)))"
      using session_completes h(5) by blast
    then show ?thesis by (simp add: finished_def)
  qed
  with rej show ?thesis by blast
qed

theorem typeText_while_typing_rejects_witness:
  "isTyping (snd (typeText ''ab'' ''javascript'' steady_engine))
   \<and> textContent (snd (typeText ''ab'' ''javascript'' steady_engine)) = ''a''
   \<and> fst (typeText ''cd'' ''javascript'' (snd (typeText ''ab'' ''javascript'' steady_engine))) = 1
   \<and> promises (snd (typeText ''cd'' ''javascript'' (snd (typeText ''ab'' ''javascript'' steady_engine))))
       = [(Pending, False), (Rejected (Error ''Already typing''), False)]
   \<and> textContent (snd (typeText ''cd'' ''javascript'' (snd (typeText ''ab'' ''javascript'' steady_engine))))
       = ''a''
   \<and> textContent (ticks 6 (snd (typeText ''cd'' ''javascript''
         (snd (typeText ''ab'' ''javascript'' steady_engine))))) = ''ab''
   \<and> fst (promises (ticks 6 (snd (typeText ''cd'' ''javascript''
         (snd (typeText ''ab'' ''javascript'' steady_engine))))) ! 0) = Fulfilled"
proof -
  let ?w = "snd (typeText ''ab'' ''javascript'' steady_engine)"
  have idle: "\<not> isTyping steady_engine" "timers steady_engine = []"
    "length (promises steady_engine) = 0"
    "\<forall>k. 0 \<le> rnd steady_engine k \<and> rnd steady_engine k < 1"
    by (simp_all add: steady_engine_def new_TypingEngine_def blank_page_def)
  have busy: "isTyping ?w" and shown: "textContent ?w = ''a''"
    and before: "promises ?w = [(Pending, False)]"
    by code_simp+
  have here: "?w = fires [] ?w" by (simp add: fires_def)
  from typeText_while_typing_rejects [OF busy, of "''cd''" "''javascript''"]
  have rej: "typeText ''cd'' ''javascript'' ?w =
      (length (promises ?w),
       ?w\<lparr>promises := promises ?w @ [(Rejected (Error ''Already typing''), False)]\<rparr>)"
    and run: "\<not> isTyping steady_engine \<and> timers steady_engine = []
        \<and> (\<forall>k. 0 \<le> rnd steady_engine k \<and> rnd steady_engine k < 1)
        \<and> ?w = fires [] (snd (typeText ''ab'' ''javascript'' steady_engine))
        \<and> 3 * length ''ab'' \<le> 6
        \<longrightarrow> textContent (ticks 6 (snd (typeText ''cd'' ''javascript'' ?w))) = ''ab''
          \<and> fst (promises (ticks 6 (snd (typeText ''cd'' ''javascript'' ?w)))
                ! length (promises steady_engine)) = Fulfilled"
    by blast+
  have fin: "textContent (ticks 6 (snd (typeText ''cd'' ''javascript'' ?w))) = ''ab''
      \<and> fst (promises (ticks 6 (snd (typeText ''cd'' ''javascript'' ?w))) ! 0) = Fulfilled"
    using run idle here by simp
  show ?thesis
    using busy shown fin by (simp add: rej before)
qed

section \<open>Stopping a session\<close>

text \<open>
  What \<^verbatim>\<open>stop()\<close> does. Take any history of an engine that began idle: calls of
  \<^verbatim>\<open>typeText\<close>, \<^verbatim>\<open>typeWithCursor\<close>, \<^verbatim>\<open>pause\<close>, \<^verbatim>\<open>resume\<close>, \<^verbatim>\<open>stop\<close>, \<^verbatim>\<open>clear\<close>,
  \<^verbatim>\<open>setSpeed\<close> and timers firing, in any order. After \<^verbatim>\<open>stop()\<close> no timer is pending, so
  however many timers the event loop tries to run afterwards the page stays as
  \<^verbatim>\<open>stop()\<close> left it: no promise changes its status (the promise of the stopped run stays
  pending), no cue is played (no completion cue), the output element keeps its text, and
  no hold timer is scheduled. Moreover a promise that is pending when \<^verbatim>\<open>stop()\<close> is called
  stays pending through every later history of the engine, new runs included: the
  stopped run is never resolved.
\<close>

theorem stop_abandons_session:
  assumes "\<not> isTyping w0" and "timers w0 = []"
  shows "fires ts (stop (run_events es w0)) = stop (run_events es w0)
    \<and> timers (fires ts (stop (run_events es w0))) = []
    \<and> \<not> isTyping (fires ts (stop (run_events es w0)))
    \<and> promises (fires ts (stop (run_events es w0))) = promises (run_events es w0)
    \<and> cues (fires ts (stop (run_events es w0))) = cues (run_events es w0)
    \<and> textContent (fires ts (stop (run_events es w0))) = textContent (run_events es w0)
    \<and> typingCompleteTimer (fires ts (stop (run_events es w0)))
        = typingCompleteTimer (run_events es w0)
    \<and> (\<forall>p later. p < length (promises (run_events es w0))
           \<and> fst (promises (run_events es w0) ! p) = Pending
           \<longrightarrow> fst (promises (run_events later (stop (run_events es w0))) ! p) = Pending)"
proof -
  have t: "tidy (run_events es w0)"
    using assms by (simp add: tidy_idle tidy_run_events)
  then have c: "timers (stop (run_events es w0)) = []" "\<not> isTyping (stop (run_events es w0))"
    using stop_clears by blast+
  then have "fires ts (stop (run_events es w0)) = stop (run_events es w0)"
    by (simp add: fires_idle)
  moreover have "fst (promises (run_events later (stop (run_events es w0))) ! p) = Pending"
    if "p < length (promises (run_events es w0))" "fst (promises (run_events es w0) ! p) = Pending"
    for p later
    using abandoned_run_events [OF tidy_stop [OF t] abandoned_stop [OF that], of later]
    by (simp add: abandoned_def)
  ultimately show ?thesis using c by (simp add: stop_fields)
qed

theorem stop_abandons_session_witness:
  "\<not> isTyping steady_engine \<and> timers steady_engine = []
   \<and> timers (run_events [CallTypeText ''ab'' ''javascript''] steady_engine)
       = [(1, 50, TypeNext ''ab'' 1)]
   \<and> promises (run_events [CallTypeText ''ab'' ''javascript''] steady_engine) = [(Pending, False)]
   \<and> timers (fires [1, 2] (stop (run_events [CallTypeText ''ab'' ''javascript''] steady_engine))) = []
   \<and> promises (fires [1, 2] (stop (run_events [CallTypeText ''ab'' ''javascript''] steady_engine)))
       = [(Pending, False)]
   \<and> cues (fires [1, 2] (stop (run_events [CallTypeText ''ab'' ''javascript''] steady_engine)))
       = [Keypress]
   \<and> textContent (fires [1, 2] (stop (run_events [CallTypeText ''ab'' ''javascript''] steady_engine)))
       = ''a''
   \<and> fst (promises (run_events [CallTypeText ''c'' ''javascript'', TimerFires 1, TimerFires 2]
            (stop (run_events [CallTypeText ''ab'' ''javascript''] steady_engine))) ! 0) = Pending
   \<and> snd (promises (run_events [CallTypeText ''c'' ''javascript'', TimerFires 1, TimerFires 2]
            (stop (run_events [CallTypeText ''ab'' ''javascript''] steady_engine))) ! 0) = False
   \<and> promises (run_events [CallTypeText ''c'' ''javascript'', TimerFires 1, TimerFires 2]
            (stop (run_events [CallTypeText ''ab'' ''javascript''] steady_engine))) ! 1
       = (Fulfilled, False)"
proof -
  have idle: "\<not> isTyping steady_engine" "timers steady_engine = []"
    by (simp_all add: steady_engine_def new_TypingEngine_def blank_page_def)
  have before: "timers (run_events [CallTypeText ''ab'' ''javascript''] steady_engine)
       = [(1, 50, TypeNext ''ab'' 1)]"
    "promises (run_events [CallTypeText ''ab'' ''javascript''] steady_engine) = [(Pending, False)]"
    "cues (run_events [CallTypeText ''ab'' ''javascript''] steady_engine) = [Keypress]"
    "textContent (run_events [CallTypeText ''ab'' ''javascript''] steady_engine) = ''a''"
    by code_simp+
  have next_run: "snd (promises (run_events [CallTypeText ''c'' ''javascript'', TimerFires 1, TimerFires 2]
            (stop (run_events [CallTypeText ''ab'' ''javascript''] steady_engine))) ! 0) = False"
    "promises (run_events [CallTypeText ''c'' ''javascript'', TimerFires 1, TimerFires 2]
            (stop (run_events [CallTypeText ''ab'' ''javascript''] steady_engine))) ! 1
       = (Fulfilled, False)"
    by code_simp+
  let ?w = "run_events [CallTypeText ''ab'' ''javascript''] steady_engine"
  note cancelled = stop_abandons_session [OF idle, of "[1, 2]" "[CallTypeText ''ab'' ''javascript'']"]
  have after: "timers (fires [1, 2] (stop ?w)) = []"
    "promises (fires [1, 2] (stop ?w)) = promises ?w"
    "cues (fires [1, 2] (stop ?w)) = cues ?w"
    "textContent (fires [1, 2] (stop ?w)) = textContent ?w"
    using cancelled by blast+
  have "0 < length (promises ?w) \<and> fst (promises ?w ! 0) = Pending \<longrightarrow>
      fst (promises (run_events [CallTypeText ''c'' ''javascript'', TimerFires 1, TimerFires 2]
            (stop ?w)) ! 0) = Pending"
    using cancelled by blast
  then have never: "fst (promises (run_events [CallTypeText ''c'' ''javascript'', TimerFires 1,
      TimerFires 2] (stop ?w)) ! 0) = Pending"
    by (simp add: before)
  show ?thesis
    unfolding after using idle before never next_run by simp
qed

text \<open>
  C5, at a failing input. Navigation does not cancel the run it interrupts, since the
  controller never calls \<^verbatim>\<open>stop()\<close>. The controller is typing the snippet \<open>bb\<close> and
  has shown the first \<open>b\<close>. \<^verbatim>\<open>nextSnippet()\<close> (likewise \<^verbatim>\<open>previousSnippet()\<close>) moves the
  index and clears the output, the new \<^verbatim>\<open>typeText\<close> is rejected, and the old run's timer
  stays pending. When it fires, the old run types its second \<open>b\<close> into the cleared
  output; at the next timer it plays the completion cue and its promise is fulfilled.
\<close>

theorem navigation_does_not_cancel_the_run:
  "isTyping (drain (setSnippet (Num 1) demo_controller))
   \<and> textContent (drain (setSnippet (Num 1) demo_controller)) = ''b''
   \<and> promises (drain (setSnippet (Num 1) demo_controller)) = [(Pending, True)]
   \<and> cues (drain (setSnippet (Num 1) demo_controller)) = [Keypress]
   \<and> currentSnippetIndex (drain (nextSnippet (drain (setSnippet (Num 1) demo_controller)))) = Num 2
   \<and> textContent (drain (nextSnippet (drain (setSnippet (Num 1) demo_controller)))) = []
   \<and> timers (drain (nextSnippet (drain (setSnippet (Num 1) demo_controller))))
       = [(1, 60, TypeNext ''bb'' 1)]
   \<and> promises (drain (nextSnippet (drain (setSnippet (Num 1) demo_controller))))
       = [(Pending, True), (Rejected (Error ''Already typing''), False)]
   \<and> textContent (ticks 1 (drain (nextSnippet (drain (setSnippet (Num 1) demo_controller))))) = ''b''
   \<and> textContent (ticks 2 (drain (nextSnippet (drain (setSnippet (Num 1) demo_controller))))) = ''b''
   \<and> cues (ticks 2 (drain (nextSnippet (drain (setSnippet (Num 1) demo_controller)))))
       = [Keypress, Keypress, Complete]
   \<and> promises (ticks 2 (drain (nextSnippet (drain (setSnippet (Num 1) demo_controller)))))
       = [(Fulfilled, True), (Rejected (Error ''Already typing''), False)]
   \<and> currentSnippetIndex (drain (previousSnippet (drain (setSnippet (Num 1) demo_controller)))) = Num 0
   \<and> cues (ticks 2 (drain (previousSnippet (drain (setSnippet (Num 1) demo_controller)))))
       = [Keypress, Keypress, Complete]
   \<and> promises (ticks 2 (drain (previousSnippet (drain (setSnippet (Num 1) demo_controller)))))
       = [(Fulfilled, True), (Rejected (Error ''Already typing''), False)]"
  by code_simp

section \<open>Pausing during the hold\<close>

text \<open>
  The engine keeps one completion callback: \<^verbatim>\<open>typeText\<close> stores its promise's
  \<^verbatim>\<open>resolve\<close> in the field where the controller had registered its own handler. So
  when a snippet started by the controller has been typed, the promise is fulfilled but
  the controller's \<^verbatim>\<open>onTypingComplete\<close> is not called by the engine: the container
  stays in the typing state and no hold timer is pending.
\<close>

lemma completion_reaches_the_promise_only:
  "(case startDemo demo_controller of
      Inl e \<Rightarrow> False
    | Inr w0 \<Rightarrow>
        onComplete demo_controller = Some ControllerComplete
        \<and> onComplete (drain w0) = Some (Resolve 0)
        \<and> textContent (tick (drain w0)) = ''a''
        \<and> promises (tick (drain w0)) = [(Fulfilled, True)]
        \<and> container_state (tick (drain w0)) = Some StTyping
        \<and> timers (tick (drain w0)) = [])"
  by code_simp

text \<open>
  C6, at a failing input. The first snippet has been typed and the controller's
  completion handler \<^verbatim>\<open>onTypingComplete()\<close> has run (called directly, see above) and
  scheduled the hold timer (5000 ms); left alone, that timer advances to index 1.
  \<^verbatim>\<open>pauseDemo()\<close> cancels it. \<^verbatim>\<open>resumeDemo()\<close> schedules nothing: afterwards no timer is
  pending, \<^verbatim>\<open>typingCompleteTimer\<close> is null, the container is in the typing state with
  nothing being typed, and the index stays 0 however long one waits.
\<close>

theorem resumeDemo_does_not_reschedule_the_hold:
  "(case startDemo demo_controller of
      Inl e \<Rightarrow> False
    | Inr w0 \<Rightarrow>
        container_state (ctl_onTypingComplete (tick (drain w0))) = Some StCompleted
        \<and> timers (ctl_onTypingComplete (tick (drain w0))) = [(2, 5000, HoldElapsed)]
        \<and> typingCompleteTimer (ctl_onTypingComplete (tick (drain w0))) = Some 2
        \<and> currentSnippetIndex (tick (ctl_onTypingComplete (tick (drain w0)))) = Num 1
        \<and> timers (pauseDemo (ctl_onTypingComplete (tick (drain w0)))) = []
        \<and> currentSnippetIndex (ticks 9 (pauseDemo (ctl_onTypingComplete (tick (drain w0))))) = Num 0
        \<and> timers (resumeDemo (pauseDemo (ctl_onTypingComplete (tick (drain w0))))) = []
        \<and> typingCompleteTimer (resumeDemo (pauseDemo (ctl_onTypingComplete (tick (drain w0)))))
            = None
        \<and> \<not> ctl_isPaused (resumeDemo (pauseDemo (ctl_onTypingComplete (tick (drain w0)))))
        \<and> container_state (resumeDemo (pauseDemo (ctl_onTypingComplete (tick (drain w0)))))
            = Some StTyping
        \<and> currentSnippetIndex
             (ticks 9 (resumeDemo (pauseDemo (ctl_onTypingComplete (tick (drain w0)))))) = Num 0)"
  by code_simp

section \<open>Starting with no snippets\<close>

text \<open>
  C7, as the code has it. \<^verbatim>\<open>startDemo\<close> on a controller with no snippets logs the
  warning "No code snippets available" and returns normally: nothing is raised to the
  caller, the engine is not started and nothing else on the page changes.
\<close>

theorem startDemo_without_snippets_warns:
  assumes "snippets w = []"
  shows "startDemo w = Inr (w\<lparr>console := console w @ [Warn ''No code snippets available'']\<rparr>)"
  using assms by (simp add: startDemo_def)

theorem startDemo_without_snippets_warns_witness:
  "snippets empty_controller = []
   \<and> startDemo empty_controller
       = Inr (empty_controller\<lparr>console := [Warn ''No code snippets available'']\<rparr>)"
proof -
  have e: "snippets empty_controller = []"
    by (simp add: empty_controller_def new_TerminalController_def init_def Let_def
        new_TypingEngine_def setupTypingCallbacks_def onTypingError_def onTypingComplete_def
        onTypingProgress_def updateUI_def blank_page_def default_controller_options_def)
  have c: "console empty_controller = []"
    by (simp add: empty_controller_def new_TerminalController_def init_def Let_def
        new_TypingEngine_def setupTypingCallbacks_def onTypingError_def onTypingComplete_def
        onTypingProgress_def updateUI_def blank_page_def default_controller_options_def)
  show ?thesis
    using startDemo_without_snippets_warns [OF e] e c by simp
qed

text \<open>
  The claim as the spec words it (the call surfaces an error) fails on the controller
  with no snippets: the call returns, with no error.
\<close>

theorem startDemo_without_snippets_raises_nothing:
  "\<not> isl (startDemo empty_controller)"
  by (simp add: startDemo_def empty_controller_def new_TerminalController_def init_def Let_def
      new_TypingEngine_def setupTypingCallbacks_def onTypingError_def onTypingComplete_def
      onTypingProgress_def updateUI_def blank_page_def default_controller_options_def)

section \<open>Cues of the normal emission step\<close>

text \<open>
  C8, at a failing input. With sound enabled and no typing error simulated, typing
  \<open>A b.\<close> emits all four characters and plays one keypress cue only, for \<open>b\<close>: the
  capital, the space and the full stop are emitted with no cue (the completion cue
  follows). The error path does play the keypress cue for a space it retypes.
\<close>

theorem space_punctuation_capitals_play_no_cue:
  "textContent (ticks 4 (snd (typeText ''A b.'' ''javascript'' steady_engine))) = ''A b.''
   \<and> cues (ticks 4 (snd (typeText ''A b.'' ''javascript'' steady_engine))) = [Keypress, Complete]
   \<and> textContent (snd (typeText '' '' ''javascript'' steady_engine)) = '' ''
   \<and> cues (snd (typeText '' '' ''javascript'' steady_engine)) = []
   \<and> textContent (ticks 2 (snd (typeText '' '' ''javascript'' erring_engine))) = '' ''
   \<and> cues (ticks 2 (snd (typeText '' '' ''javascript'' erring_engine)))
       = [Keypress, Backspace, Keypress]"
  by code_simp

section \<open>Bounds of the snippet index\<close>

text \<open>
  C9. \<^verbatim>\<open>setSnippet(index)\<close> with an index outside \<open>0 \<le> index < snippets.length\<close> (a
  negative one, one at or past the length, or NaN) changes nothing at all: the page after
  the call is the page before it, so the current index is the same, no timer was
  cleared or set, the engine was neither stopped nor started, and nothing was raised.
\<close>

theorem setSnippet_out_of_range_noop:
  assumes "index = NaN \<or> (\<exists>i. index = Num i \<and> (i < 0 \<or> int (length (snippets w)) \<le> i))"
  shows "setSnippet index w = w"
  using assms by (auto simp: setSnippet_def)

theorem setSnippet_out_of_range_noop_witness:
  "length (snippets demo_controller) = 3
   \<and> setSnippet (Num (- 1)) demo_controller = demo_controller
   \<and> setSnippet (Num 3) demo_controller = demo_controller
   \<and> setSnippet NaN demo_controller = demo_controller"
proof -
  have len: "length (snippets demo_controller) = 3"
    by (simp add: demo_controller_def new_TerminalController_def init_def Let_def
        new_TypingEngine_def setupTypingCallbacks_def onTypingError_def onTypingComplete_def
        onTypingProgress_def updateUI_def blank_page_def three_snippets_def
        default_controller_options_def)
  have a: "Num (- 1) = NaN \<or>
      (\<exists>i. Num (- 1) = Num i \<and> (i < 0 \<or> int (length (snippets demo_controller)) \<le> i))"
    by simp
  have b: "Num 3 = NaN \<or>
      (\<exists>i. Num 3 = Num i \<and> (i < 0 \<or> int (length (snippets demo_controller)) \<le> i))"
    by (simp add: len)
  have c: "NaN = NaN \<or>
      (\<exists>i. NaN = Num i \<and> (i < 0 \<or> int (length (snippets demo_controller)) \<le> i))"
    by simp
  show ?thesis
    using len setSnippet_out_of_range_noop [OF a] setSnippet_out_of_range_noop [OF b]
      setSnippet_out_of_range_noop [OF c]
    by simp
qed

text \<open>
  C10. With no snippets, \<^verbatim>\<open>nextSnippet\<close> takes the remainder by zero and stores NaN
  whatever the index was; \<^verbatim>\<open>previousSnippet\<close> on the index \<open>0\<close> (the constructor's
  value) stores \<open>-1\<close>, and on any other index one less than it. Neither call is
  refused, the new index names no snippet, and the \<^verbatim>\<open>typeCurrentSnippet\<close> that ends the
  call does nothing: beyond the rotation timers being cleared, only the index has
  changed.
\<close>

theorem navigation_on_empty_list_breaks_index:
  assumes "snippets w = []"
  shows "nextSnippet w = (clearRotationTimers w)\<lparr>currentSnippetIndex := NaN\<rparr>
    \<and> currentSnippetIndex (nextSnippet w) = NaN
    \<and> snippet_at (snippets (nextSnippet w)) (currentSnippetIndex (nextSnippet w)) = None
    \<and> previousSnippet w =
        (clearRotationTimers w)\<lparr>currentSnippetIndex :=
           (if currentSnippetIndex w = Num 0 then Num (- 1)
            else js_add (currentSnippetIndex w) (- 1))\<rparr>
    \<and> (currentSnippetIndex w = Num 0 \<longrightarrow> currentSnippetIndex (previousSnippet w) = Num (- 1))
    \<and> snippet_at (snippets (previousSnippet w)) (currentSnippetIndex (previousSnippet w)) = None"
proof -
  have keep: "snippets (clearRotationTimers w) = []"
    "currentSnippetIndex (clearRotationTimers w) = currentSnippetIndex w"
    using assms
    by (auto simp: clearRotationTimers_def clearInterval_def clearTimeout_def Let_def
        split: option.splits)
  have nan: "js_mod (js_add (currentSnippetIndex w) 1) 0 = NaN"
    by (simp add: js_mod_def js_add_def split: jsnum.splits)
  have none: "snippet_at [] i = None" for i
    by (cases i) (simp_all add: snippet_at_def)
  have idle: "typeCurrentSnippet v = v" if "snippets v = []" for v
    using that by (simp add: typeCurrentSnippet_def none)
  have n: "nextSnippet w = (clearRotationTimers w)\<lparr>currentSnippetIndex := NaN\<rparr>"
    by (simp add: nextSnippet_def Let_def keep nan idle)
  have p: "previousSnippet w =
        (clearRotationTimers w)\<lparr>currentSnippetIndex :=
           (if currentSnippetIndex w = Num 0 then Num (- 1)
            else js_add (currentSnippetIndex w) (- 1))\<rparr>"
    by (simp add: previousSnippet_def Let_def keep idle)
  show ?thesis
    unfolding n p using keep by (simp add: none)
qed

theorem navigation_on_empty_list_breaks_index_witness:
  "snippets empty_controller = [] \<and> currentSnippetIndex empty_controller = Num 0
   \<and> currentSnippetIndex (nextSnippet empty_controller) = NaN
   \<and> currentSnippetIndex (previousSnippet empty_controller) = Num (- 1)
   \<and> textContent (nextSnippet empty_controller) = textContent empty_controller
   \<and> promises (previousSnippet empty_controller) = []"
proof -
  have e: "snippets empty_controller = []"
    by (simp add: empty_controller_def new_TerminalController_def init_def Let_def
        new_TypingEngine_def setupTypingCallbacks_def onTypingError_def onTypingComplete_def
        onTypingProgress_def updateUI_def blank_page_def default_controller_options_def)
  have z: "currentSnippetIndex empty_controller = Num 0"
    by (simp add: empty_controller_def new_TerminalController_def init_def Let_def
        new_TypingEngine_def setupTypingCallbacks_def onTypingError_def onTypingComplete_def
        onTypingProgress_def updateUI_def blank_page_def default_controller_options_def)
  have t: "typingCompleteTimer empty_controller = None" "autoRotateTimer empty_controller = None"
    "promises empty_controller = []"
    by (simp_all add: empty_controller_def new_TerminalController_def init_def Let_def
        new_TypingEngine_def setupTypingCallbacks_def onTypingError_def onTypingComplete_def
        onTypingProgress_def updateUI_def blank_page_def default_controller_options_def)
  show ?thesis
    using navigation_on_empty_list_breaks_index [OF e] e z t
    by (simp add: clearRotationTimers_def)
qed

end
